theory Spec2Isabelle
  imports Complex_Main "HOL-Library.AList"
begin

section \<open>The interactive node-link scene of app.js (ES module variant)\<close>

text \<open>
  The development embeds the scene builder, the particle pool, the pointer handlers, the
  reset handler and the per-frame updater of the ES module in \<^verbatim>\<open>src/app.js\<close>. The plain
  script that precedes the module in that file (a CSV loader with a click highlight) is not
  embedded. JavaScript numbers are idealised as reals; the 32-bit floats in which a line
  geometry stores its points are the reals they denote, or an infinity. What the rendering
  library and the browser decide (ray intersection, the ray through the pointer,
  \<^verbatim>\<open>Math.random\<close>, the clock, the orbit controller, text measurement) enters every
  operation as an argument.
\<close>

subsection \<open>Vectors\<close>

datatype vec3 = Vector3 (vx: real) (vy: real) (vz: real)

definition setScalar :: "real \<Rightarrow> vec3" where
  "setScalar k = Vector3 k k k"

definition sub :: "vec3 \<Rightarrow> vec3 \<Rightarrow> vec3" where
  "sub u v = Vector3 (vx u - vx v) (vy u - vy v) (vz u - vz v)"

definition add :: "vec3 \<Rightarrow> vec3 \<Rightarrow> vec3" where
  "add u v = Vector3 (vx u + vx v) (vy u + vy v) (vz u + vz v)"

definition multiplyScalar :: "vec3 \<Rightarrow> real \<Rightarrow> vec3" where
  "multiplyScalar u k = Vector3 (vx u * k) (vy u * k) (vz u * k)"

definition addScaledVector :: "vec3 \<Rightarrow> vec3 \<Rightarrow> real \<Rightarrow> vec3" where
  "addScaledVector u v k = Vector3 (vx u + vx v * k) (vy u + vy v * k) (vz u + vz v * k)"

definition distanceTo :: "vec3 \<Rightarrow> vec3 \<Rightarrow> real" where
  "distanceTo u v =
     sqrt ((vx u - vx v) * (vx u - vx v) + (vy u - vy v) * (vy u - vy v)
           + (vz u - vz v) * (vz u - vz v))"

text \<open>\<^verbatim>\<open>THREE.MathUtils.lerp(x, y, t)\<close> and \<^verbatim>\<open>Vector3.lerp(v, alpha)\<close>.\<close>

definition lerp :: "real \<Rightarrow> real \<Rightarrow> real \<Rightarrow> real" where
  "lerp x y t = (1 - t) * x + t * y"

definition vlerp :: "vec3 \<Rightarrow> vec3 \<Rightarrow> real \<Rightarrow> vec3" where
  "vlerp u v alpha =
     Vector3 (vx u + (vx v - vx u) * alpha) (vy u + (vy v - vy u) * alpha)
             (vz u + (vz v - vz u) * alpha)"

subsection \<open>Float32 storage\<close>

text \<open>
  \<^verbatim>\<open>BufferGeometry.setFromPoints\<close> copies the coordinates of its points into a
  \<^verbatim>\<open>Float32Array\<close>, which rounds every number to the nearest 32-bit float, ties to the even
  significand: 24 significant bits, exponents from -126 (below it the spacing stays
  \<open>2 ^ -149\<close>) to 127, and an infinity from \<open>2 ^ 128\<close> on.
\<close>

datatype float32 = Float32 real | PosInfinity | NegInfinity

definition roundTiesToEven :: "real \<Rightarrow> int" where
  "roundTiesToEven r =
     (let f = \<lfloor>r\<rfloor> in
      if r - of_int f < 1 / 2 then f
      else if 1 / 2 < r - of_int f then f + 1
      else if even f then f else f + 1)"

definition fround :: "real \<Rightarrow> float32" where
  "fround x =
     (if x = 0 then Float32 0
      else let e = max \<lfloor>log 2 \<bar>x\<bar>\<rfloor> (- 126);
               ulp = 2 powr (of_int e - 23);
               y = of_int (roundTiesToEven (x / ulp)) * ulp
           in if 2 ^ 128 \<le> y then PosInfinity
              else if y \<le> - (2 ^ 128) then NegInfinity
              else Float32 y)"

type_synonym point32 = "float32 \<times> float32 \<times> float32"

text \<open>The geometry that \<^verbatim>\<open>setFromPoints([a, b])\<close> leaves: the two points as stored.\<close>

definition setFromPoints :: "vec3 \<Rightarrow> vec3 \<Rightarrow> point32 \<times> point32" where
  "setFromPoints a b =
     ((fround (vx a), fround (vy a), fround (vz a)),
      (fround (vx b), fround (vy b), fround (vz b)))"

subsection \<open>Category styles\<close>

datatype category = core | light | usage | usecase | property | constraint | process

record style =
  st_color :: nat
  st_size :: real

text \<open>The table \<^verbatim>\<open>categoryStyle\<close>; it has no entry for \<^verbatim>\<open>usecase\<close>.\<close>

fun categoryStyle :: "category \<Rightarrow> style option" where
  "categoryStyle core = Some \<lparr>st_color = 0x60e6ff, st_size = 2.4\<rparr>"
| "categoryStyle light = Some \<lparr>st_color = 0xffd17a, st_size = 2.1\<rparr>"
| "categoryStyle usage = Some \<lparr>st_color = 0x9be76b, st_size = 1.9\<rparr>"
| "categoryStyle property = Some \<lparr>st_color = 0xd78fff, st_size = 1.8\<rparr>"
| "categoryStyle constraint = Some \<lparr>st_color = 0xff8b8b, st_size = 1.7\<rparr>"
| "categoryStyle process = Some \<lparr>st_color = 0xa7c0ff, st_size = 1.6\<rparr>"
| "categoryStyle usecase = None"

definition categoryStyle_default :: style where
  "categoryStyle_default = \<lparr>st_color = 0xffffff, st_size = 1.6\<rparr>"

text \<open>\<^verbatim>\<open>categoryStyle[c] || categoryStyle.default\<close>\<close>

definition styleOf :: "category \<Rightarrow> style" where
  "styleOf c = (case categoryStyle c of Some st \<Rightarrow> st | None \<Rightarrow> categoryStyle_default)"

subsection \<open>The particle pool\<close>

record particle =
  alive :: bool
  life :: real
  velocity :: vec3
  p_position :: vec3
  p_scale :: real
  p_color :: nat
  opacity :: real
  visible :: bool

definition PARTICLE_MAX :: nat where
  "PARTICLE_MAX = 200"

text \<open>One pooled particle as the construction loop makes it.\<close>

definition newParticle :: particle where
  "newParticle =
     \<lparr>alive = False, life = 0, velocity = Vector3 0 0 0, p_position = Vector3 0 0 0,
      p_scale = 1, p_color = 0xffffff, opacity = 0, visible = False\<rparr>"

definition initialPool :: "particle list" where
  "initialPool = replicate PARTICLE_MAX newParticle"

text \<open>
  The five results of \<^verbatim>\<open>Math.random()\<close> that one successful \<^verbatim>\<open>spawnParticles\<close> call
  draws, in the order the code draws them.
\<close>

record draws =
  d_life :: real
  d_scale :: real
  d_vx :: real
  d_vy :: real
  d_vz :: real

definition draws_ok :: "draws \<Rightarrow> bool" where
  "draws_ok r \<longleftrightarrow>
     0 \<le> d_life r \<and> d_life r < 1 \<and> 0 \<le> d_scale r \<and> d_scale r < 1 \<and>
     0 \<le> d_vx r \<and> d_vx r < 1 \<and> 0 \<le> d_vy r \<and> d_vy r < 1 \<and> 0 \<le> d_vz r \<and> d_vz r < 1"

text \<open>The body of the \<^verbatim>\<open>if (!p.userData.alive)\<close> branch of \<^verbatim>\<open>spawnParticles\<close>.\<close>

definition spawnInit :: "vec3 \<Rightarrow> nat \<Rightarrow> draws \<Rightarrow> particle \<Rightarrow> particle" where
  "spawnInit origin c r p =
     p\<lparr>alive := True,
       life := 0.7 + d_life r * 0.6,
       p_position := origin,
       p_scale := 0.6 + d_scale r * 0.6,
       p_color := c,
       opacity := 1.0,
       velocity := Vector3 ((d_vx r - 0.5) * 6) (d_vy r * 6) ((d_vz r - 0.5) * 6),
       visible := True\<rparr>"

text \<open>
  \<^verbatim>\<open>spawnParticles(origin, color=0xffffff)\<close>: the scan stops (\<^verbatim>\<open>break\<close>) at the first
  particle that is not alive. A missing colour argument is \<open>None\<close>.
\<close>

fun scanPool :: "vec3 \<Rightarrow> nat \<Rightarrow> draws \<Rightarrow> particle list \<Rightarrow> particle list" where
  "scanPool origin c r [] = []"
| "scanPool origin c r (p # ps) =
     (if \<not> alive p then spawnInit origin c r p # ps else p # scanPool origin c r ps)"

definition spawnParticles :: "vec3 \<Rightarrow> nat option \<Rightarrow> draws \<Rightarrow> particle list \<Rightarrow> particle list" where
  "spawnParticles origin color r pool =
     scanPool origin (case color of None \<Rightarrow> 0xffffff | Some c \<Rightarrow> c) r pool"

text \<open>The particle loop of \<^verbatim>\<open>animate\<close>, for one particle and for the pool.\<close>

definition updateParticle :: "real \<Rightarrow> particle \<Rightarrow> particle" where
  "updateParticle dt p =
     (if \<not> alive p then p
      else let p1 = p\<lparr>life := life p - dt\<rparr> in
        if life p1 \<le> 0 then p1\<lparr>alive := False, visible := False\<rparr>
        else let p2 = p1\<lparr>p_position := addScaledVector (p_position p1) (velocity p1) dt\<rparr>;
                 p3 = p2\<lparr>velocity := multiplyScalar (velocity p2) 0.98\<rparr>
             in p3\<lparr>opacity := max 0 (life p3 / 1.2)\<rparr>)"

definition updateParticles :: "real \<Rightarrow> particle list \<Rightarrow> particle list" where
  "updateParticles dt pool = map (updateParticle dt) pool"

subsection \<open>Label textures\<close>

text \<open>
  A texture object: \<open>tex_uid\<close> is its identity (the number of textures generated before
  it), the rest is what \<^verbatim>\<open>makeLabelTexture\<close> draws. The cache \<^verbatim>\<open>labelCanvasCache\<close> is a
  \<^verbatim>\<open>Map\<close> from label strings to textures.
\<close>

record texture =
  tex_uid :: nat
  tex_text :: string
  tex_width :: int
  tex_height :: int

record texcache =
  labelCanvasCache :: "(string \<times> texture) list"
  generated :: nat

definition makeLabelTexture :: "(string \<Rightarrow> real) \<Rightarrow> string \<Rightarrow> texcache \<Rightarrow> texture \<times> texcache" where
  "makeLabelTexture measureText text c =
     (case map_of (labelCanvasCache c) text of
        Some t \<Rightarrow> (t, c)
      | None \<Rightarrow>
          let fontSize = 48; padding = 12;
              w = \<lceil>measureText text\<rceil> + padding * 2;
              h = fontSize + padding * 2;
              t = \<lparr>tex_uid = generated c, tex_text = text, tex_width = w, tex_height = h\<rparr>
          in (t, \<lparr>labelCanvasCache = AList.update text t (labelCanvasCache c),
                  generated = Suc (generated c)\<rparr>))"

subsection \<open>Nodes and edges of the scene\<close>

record nodeRecord =
  n_id :: string
  n_label :: string
  n_category :: category
  n_position :: "vec3 option"

record pulse =
  pulse_t :: real
  duration :: real
  peak :: real

text \<open>
  A node marker: the sphere mesh with its material, its \<^verbatim>\<open>userData\<close> and its child label
  sprite (\<open>labelTex\<close> is \<^verbatim>\<open>sprite.material.map\<close>, \<open>spritePos\<close> is \<^verbatim>\<open>sprite.position\<close>).
\<close>

record mesh =
  m_id :: string
  m_label :: string
  m_category :: category
  baseScale :: real
  m_pulse :: "pulse option"
  m_scale :: vec3
  m_position :: vec3
  m_color :: nat
  emissive :: nat
  emissiveIntensity :: real
  labelTex :: texture
  spritePos :: vec3

text \<open>
  A line of \<^verbatim>\<open>edgeGroup\<close>: \<^verbatim>\<open>userData = {a, b}\<close> and the two points that
  \<^verbatim>\<open>setFromPoints\<close> stored in its geometry.
\<close>

record line =
  l_a :: string
  l_b :: string
  geometry :: "point32 \<times> point32"

datatype error = TypeError

text \<open>
  An object the raycaster can report: the mesh of a node marker or, the intersection being
  recursive, its label sprite. The number is the index of the mesh in \<^verbatim>\<open>nodeGroup.children\<close>.
\<close>

datatype obj = MeshObj nat | SpriteObj nat

record session =
  cameraPos :: vec3
  sunLight :: real
  torchLight :: real
  nodeGroup :: "mesh list"
  nodeMap :: "(string \<times> nat) list"
  edgeGroup :: "line list"
  particlePool :: "particle list"
  textures :: texcache
  dragging :: "obj option"
  dragOffset :: vec3
  elapsedTime :: real

text \<open>
  The body of the node loop for one record. \<open>j\<close> holds the three \<^verbatim>\<open>Math.random()\<close> results
  drawn when the record has no position. The new mesh is appended to
  \<^verbatim>\<open>nodeGroup.children\<close> and \<^verbatim>\<open>nodeMap.set\<close> stores its index under the id (replacing the
  value of an id that is already a key).
\<close>

definition createNode ::
  "(string \<Rightarrow> real) \<Rightarrow> real \<times> real \<times> real \<Rightarrow> nodeRecord \<Rightarrow>
   mesh list \<times> (string \<times> nat) list \<times> texcache \<Rightarrow> mesh list \<times> (string \<times> nat) list \<times> texcache" where
  "createNode measureText j n st =
     (case st of (ms, nm, tc) \<Rightarrow>
        let sty = styleOf (n_category n);
            pos = (case n_position n of
                     Some p \<Rightarrow> p
                   | None \<Rightarrow> (case j of (r1, r2, r3) \<Rightarrow>
                       Vector3 ((r1 - 0.5) * 40) ((r2 - 0.5) * 20) ((r3 - 0.5) * 40)));
            (tex, tc') = makeLabelTexture measureText (n_label n) tc;
            m = \<lparr>m_id = n_id n, m_label = n_label n, m_category = n_category n,
                 baseScale = st_size sty, m_pulse = None,
                 m_scale = setScalar (st_size sty), m_position = pos,
                 m_color = st_color sty, emissive = 0x000000, emissiveIntensity = 0.0,
                 labelTex = tex, spritePos = Vector3 0 (st_size sty + 1.4) 0\<rparr>
        in (ms @ [m], AList.update (n_id n) (length ms) nm, tc'))"

fun createNodes ::
  "(string \<Rightarrow> real) \<Rightarrow> (nat \<Rightarrow> real \<times> real \<times> real) \<Rightarrow> nodeRecord list \<Rightarrow>
   mesh list \<times> (string \<times> nat) list \<times> texcache \<Rightarrow> mesh list \<times> (string \<times> nat) list \<times> texcache" where
  "createNodes measureText jit [] st = st"
| "createNodes measureText jit (n # ns) st =
     createNodes measureText jit ns (createNode measureText (jit (length (fst st))) n st)"

text \<open>
  The edge loop. \<^verbatim>\<open>nodeMap.get(a)\<close> is \<^verbatim>\<open>undefined\<close> for an id that is not a key, and
  reading \<^verbatim>\<open>.mesh\<close> of it throws a TypeError, which ends the module script.
\<close>

fun createEdges ::
  "mesh list \<Rightarrow> (string \<times> nat) list \<Rightarrow> (string \<times> string) list \<Rightarrow> line list \<Rightarrow> error + line list" where
  "createEdges ms nm [] acc = Inr acc"
| "createEdges ms nm ((a, b) # es) acc =
     (case map_of nm a of
        None \<Rightarrow> Inl TypeError
      | Some ia \<Rightarrow>
         (case map_of nm b of
            None \<Rightarrow> Inl TypeError
          | Some ib \<Rightarrow>
              createEdges ms nm es
                (acc @ [\<lparr>l_a = a, l_b = b,
                         geometry = setFromPoints (m_position (ms ! ia)) (m_position (ms ! ib))\<rparr>])))"

text \<open>
  The module script up to the registration of the handlers: camera and lights, the node
  loop, the edge loop, the particle pool, the drag state.
\<close>

definition build ::
  "(string \<Rightarrow> real) \<Rightarrow> (nat \<Rightarrow> real \<times> real \<times> real) \<Rightarrow> nodeRecord list \<Rightarrow>
   (string \<times> string) list \<Rightarrow> error + session" where
  "build measureText jit ns es =
     (case createNodes measureText jit ns ([], [], \<lparr>labelCanvasCache = [], generated = 0\<rparr>) of
        (ms, nm, tc) \<Rightarrow>
          (case createEdges ms nm es [] of
             Inl e \<Rightarrow> Inl e
           | Inr ls \<Rightarrow>
               Inr \<lparr>cameraPos = Vector3 0 30 80, sunLight = 0.8, torchLight = 0.0,
                    nodeGroup = ms, nodeMap = nm, edgeGroup = ls,
                    particlePool = initialPool, textures = tc,
                    dragging = None, dragOffset = Vector3 0 0 0, elapsedTime = 0\<rparr>))"

text \<open>The data of the repository.\<close>

definition nodes :: "nodeRecord list" where
  "nodes =
    [\<lparr>n_id = ''Material'', n_label = ''Responsive Material'', n_category = core,
      n_position = Some (Vector3 0 0 0)\<rparr>,
     \<lparr>n_id = ''Sun'', n_label = ''Sun (ambient light)'', n_category = light,
      n_position = Some (Vector3 50 40 (-20))\<rparr>,
     \<lparr>n_id = ''Torch'', n_label = ''Torch / Lamp'', n_category = light,
      n_position = Some (Vector3 (-50) 18 8)\<rparr>,
     \<lparr>n_id = ''Wrapping'', n_label = ''Wrapping / Cover'', n_category = usage,
      n_position = Some (Vector3 24 (-10) 12)\<rparr>,
     \<lparr>n_id = ''Body'', n_label = ''Product Body'', n_category = usage,
      n_position = Some (Vector3 (-28) (-12) 14)\<rparr>,
     \<lparr>n_id = ''Feeding'', n_label = ''Pet Feeding Use'', n_category = usecase,
      n_position = Some (Vector3 0 (-28) 0)\<rparr>,
     \<lparr>n_id = ''Responsivity'', n_label = ''Responsivity Modes'', n_category = property,
      n_position = Some (Vector3 0 20 (-20))\<rparr>,
     \<lparr>n_id = ''Thermo'', n_label = ''Thermochromic'', n_category = property,
      n_position = Some (Vector3 18 28 (-5))\<rparr>,
     \<lparr>n_id = ''Hydro'', n_label = ''Hydrochromic'', n_category = property,
      n_position = Some (Vector3 (-18) 28 (-5))\<rparr>,
     \<lparr>n_id = ''Safety'', n_label = ''Safety / Non-toxic'', n_category = constraint,
      n_position = Some (Vector3 (-48) (-28) (-10))\<rparr>,
     \<lparr>n_id = ''Cleaning'', n_label = ''Cleaning / Durability'', n_category = constraint,
      n_position = Some (Vector3 48 (-28) (-10))\<rparr>,
     \<lparr>n_id = ''Manufacture'', n_label = ''Manufacturability'', n_category = process,
      n_position = Some (Vector3 0 40 18)\<rparr>]"

definition edges :: "(string \<times> string) list" where
  "edges =
    [(''Material'', ''Sun''), (''Material'', ''Torch''), (''Material'', ''Wrapping''),
     (''Material'', ''Body''), (''Material'', ''Responsivity''), (''Responsivity'', ''Thermo''),
     (''Responsivity'', ''Hydro''), (''Body'', ''Feeding''), (''Wrapping'', ''Feeding''),
     (''Material'', ''Safety''), (''Material'', ''Cleaning''), (''Material'', ''Manufacture'')]"

subsection \<open>Activation and the pointer handlers\<close>

text \<open>
  \<^verbatim>\<open>onNodeActivate(nodeEntry)\<close>. The entry is what \<^verbatim>\<open>nodeMap.get\<close> returned: the index of a
  mesh, or \<open>None\<close> for \<^verbatim>\<open>undefined\<close>, whose \<^verbatim>\<open>.mesh\<close> throws. \<open>rnd k\<close> holds the draws of
  the \<open>k\<close>-th of the eight \<^verbatim>\<open>spawnParticles\<close> calls. The groups of the scene are never
  moved, so the world position of a mesh is its position.
\<close>

definition onNodeActivate :: "nat option \<Rightarrow> (nat \<Rightarrow> draws) \<Rightarrow> session \<Rightarrow> error option \<times> session" where
  "onNodeActivate nodeEntry rnd s =
     (case nodeEntry of
        None \<Rightarrow> (Some TypeError, s)
      | Some i \<Rightarrow>
          let mesh = nodeGroup s ! i;
              base = (if baseScale mesh = 0 then 1.0 else baseScale mesh);
              color = st_color (styleOf (m_category mesh));
              mesh' = mesh\<lparr>m_pulse := Some \<lparr>pulse_t = 0, duration = 0.6, peak = base * 1.6\<rparr>,
                          emissive := color, emissiveIntensity := 0.9\<rparr>;
              pool' = fold (\<lambda>k. spawnParticles (m_position mesh') (Some color) (rnd k)) [0..<8]
                        (particlePool s);
              s1 = s\<lparr>nodeGroup := (nodeGroup s)[i := mesh'], particlePool := pool'\<rparr>
          in (None,
              if m_id mesh = ''Sun'' then s1\<lparr>sunLight := min 2.2 (sunLight s1 + 0.9)\<rparr>
              else if m_id mesh = ''Torch'' then s1\<lparr>torchLight := min 3.0 (torchLight s1 + 1.6)\<rparr>
              else s1))"

text \<open>
  \<^verbatim>\<open>onPointerDown\<close>. \<open>intersects\<close> is the result of \<^verbatim>\<open>raycaster.intersectObjects\<close>, nearest
  first, each hit with its object and its point. A label sprite has an empty \<^verbatim>\<open>userData\<close>,
  so its \<^verbatim>\<open>userData.id\<close> is \<^verbatim>\<open>undefined\<close>, which is no key of \<^verbatim>\<open>nodeMap\<close>.
\<close>

definition onPointerDown ::
  "(obj \<times> vec3) list \<Rightarrow> (nat \<Rightarrow> draws) \<Rightarrow> session \<Rightarrow> error option \<times> session" where
  "onPointerDown intersects rnd s =
     (case intersects of
        [] \<Rightarrow> (None, s\<lparr>dragging := None\<rparr>)
      | (ob, point) # _ \<Rightarrow>
         (case ob of
            MeshObj i \<Rightarrow>
              let mesh = nodeGroup s ! i;
                  s1 = s\<lparr>dragging := Some (MeshObj i),
                         dragOffset := sub point (m_position mesh)\<rparr>
              in onNodeActivate (map_of (nodeMap s1) (m_id mesh)) rnd s1
          | SpriteObj i \<Rightarrow>
              let s1 = s\<lparr>dragging := Some (SpriteObj i),
                         dragOffset := sub point (spritePos (nodeGroup s ! i))\<rparr>
              in onNodeActivate None rnd s1))"

text \<open>\<^verbatim>\<open>nodeMap.get(k).mesh.position\<close>, \<open>None\<close> where it throws.\<close>

definition nodePosition :: "session \<Rightarrow> string \<Rightarrow> vec3 option" where
  "nodePosition s k = map_option (\<lambda>i. m_position (nodeGroup s ! i)) (map_of (nodeMap s) k)"

text \<open>
  The edge loop of \<^verbatim>\<open>onPointerMove\<close>; \<open>d\<close> is \<^verbatim>\<open>dragging.userData.id\<close>, \<open>None\<close> for
  \<^verbatim>\<open>undefined\<close>. A throw leaves the lines before it updated.
\<close>

fun updateEdges ::
  "(string \<Rightarrow> vec3 option) \<Rightarrow> string option \<Rightarrow> line list \<Rightarrow> error option \<times> line list" where
  "updateEdges pos d [] = (None, [])"
| "updateEdges pos d (l # ls) =
     (if Some (l_a l) = d \<or> Some (l_b l) = d then
        (case pos (l_a l) of
           None \<Rightarrow> (Some TypeError, l # ls)
         | Some aPos \<Rightarrow>
            (case pos (l_b l) of
               None \<Rightarrow> (Some TypeError, l # ls)
             | Some bPos \<Rightarrow>
                 (case updateEdges pos d ls of
                    (e, ls') \<Rightarrow> (e, l\<lparr>geometry := setFromPoints aPos bPos\<rparr> # ls'))))
      else (case updateEdges pos d ls of (e, ls') \<Rightarrow> (e, l # ls')))"

text \<open>
  \<^verbatim>\<open>onPointerMove\<close>. \<open>origin\<close> and \<open>dir\<close> are \<^verbatim>\<open>raycaster.ray.origin\<close> and
  \<^verbatim>\<open>raycaster.ray.direction\<close> after \<^verbatim>\<open>setFromCamera\<close>.
\<close>

definition onPointerMove :: "vec3 \<Rightarrow> vec3 \<Rightarrow> session \<Rightarrow> error option \<times> session" where
  "onPointerMove origin dir s =
     (case dragging s of
        None \<Rightarrow> (None, s)
      | Some (MeshObj i) \<Rightarrow>
          let mesh = nodeGroup s ! i;
              depth = distanceTo (m_position mesh) (cameraPos s);
              target = add (multiplyScalar dir depth) origin;
              s1 = s\<lparr>nodeGroup :=
                       (nodeGroup s)[i := mesh\<lparr>m_position := sub target (dragOffset s)\<rparr>]\<rparr>
          in (case updateEdges (nodePosition s1) (Some (m_id mesh)) (edgeGroup s1) of
                (e, ls) \<Rightarrow> (e, s1\<lparr>edgeGroup := ls\<rparr>))
      | Some (SpriteObj i) \<Rightarrow>
          let mesh = nodeGroup s ! i;
              depth = distanceTo (spritePos mesh) (cameraPos s);
              target = add (multiplyScalar dir depth) origin;
              s1 = s\<lparr>nodeGroup :=
                       (nodeGroup s)[i := mesh\<lparr>spritePos := sub target (dragOffset s)\<rparr>]\<rparr>
          in (case updateEdges (nodePosition s1) None (edgeGroup s1) of
                (e, ls) \<Rightarrow> (e, s1\<lparr>edgeGroup := ls\<rparr>)))"

definition onPointerUp :: "session \<Rightarrow> session" where
  "onPointerUp s = s\<lparr>dragging := None\<rparr>"

subsection \<open>Reset and the frame loop\<close>

text \<open>\<^verbatim>\<open>nodeMap.forEach(({mesh}) => ...)\<close> with the body \<open>f\<close> acting on the mesh.\<close>

definition forEachNode :: "(mesh \<Rightarrow> mesh) \<Rightarrow> (string \<times> nat) list \<Rightarrow> mesh list \<Rightarrow> mesh list" where
  "forEachNode f nm ms = fold (\<lambda>(k, i) ms'. ms'[i := f (ms' ! i)]) nm ms"

definition resetNode :: "mesh \<Rightarrow> mesh" where
  "resetNode m =
     m\<lparr>m_scale := setScalar (if baseScale m = 0 then 1.6 else baseScale m),
       emissiveIntensity := 0.0,
       emissive := 0x000000\<rparr>"

text \<open>
  The click handler of the reset button. \<^verbatim>\<open>controls.reset()\<close> acts on the camera before
  the position is set; of the camera only the position is modelled.
\<close>

definition resetClick :: "session \<Rightarrow> session" where
  "resetClick s =
     s\<lparr>cameraPos := Vector3 0 30 80, sunLight := 0.8, torchLight := 0.0,
       nodeGroup := forEachNode resetNode (nodeMap s) (nodeGroup s)\<rparr>"

definition animateNode :: "real \<Rightarrow> mesh \<Rightarrow> mesh" where
  "animateNode dt m =
     (case m_pulse m of
        Some pu \<Rightarrow>
          let pu1 = pu\<lparr>pulse_t := pulse_t pu + dt\<rparr>;
              p = sin ((pulse_t pu1 / duration pu1) * pi) * 0.6 + 0.4;
              targetScale = lerp (baseScale m) (peak pu1) p;
              m1 = m\<lparr>m_pulse := Some pu1,
                     m_scale := vlerp (m_scale m) (setScalar targetScale) 0.18,
                     emissiveIntensity := max 0 (emissiveIntensity m - dt * 1.2)\<rparr>
          in if pulse_t pu1 > duration pu1 + 0.2
             then m1\<lparr>m_pulse := None,
                     m_scale := vlerp (m_scale m1) (setScalar (baseScale m1)) 0.2\<rparr>
             else m1
      | None \<Rightarrow>
          let m1 = m\<lparr>m_scale := Vector3 (lerp (vx (m_scale m)) (baseScale m) 0.04)
                                         (lerp (vy (m_scale m)) (baseScale m) 0.04)
                                         (lerp (vz (m_scale m)) (baseScale m) 0.04)\<rparr>;
              m2 = m1\<lparr>emissiveIntensity := max 0 (emissiveIntensity m1 - dt * 0.2)\<rparr>
          in if emissiveIntensity m2 = 0 then m2\<lparr>emissive := 0x000000\<rparr> else m2)"

text \<open>The idle motion of every child of \<^verbatim>\<open>nodeGroup\<close>; \<open>t\<close> is \<^verbatim>\<open>clock.elapsedTime\<close>.\<close>

definition nodeMotion :: "real \<Rightarrow> real \<Rightarrow> mesh list \<Rightarrow> mesh list" where
  "nodeMotion t dt ms =
     map (\<lambda>(idx, m).
            m\<lparr>m_position :=
                Vector3 (vx (m_position m))
                        (vy (m_position m) + sin (t * 0.3 + real idx) * 0.08 * dt)
                        (vz (m_position m))\<rparr>)
         (enumerate 0 ms)"

text \<open>
  One call of \<^verbatim>\<open>animate\<close>: \<open>dt\<close> is what \<^verbatim>\<open>clock.getDelta()\<close> returned (it also adds \<open>dt\<close>
  to \<^verbatim>\<open>clock.elapsedTime\<close>), \<open>cam\<close> is where \<^verbatim>\<open>controls.update()\<close> leaves the camera.
\<close>

definition animate :: "real \<Rightarrow> vec3 \<Rightarrow> session \<Rightarrow> session" where
  "animate dt cam s =
     (let t = elapsedTime s + dt;
          ms1 = forEachNode (animateNode dt) (nodeMap s) (nodeGroup s);
          pool = updateParticles dt (particlePool s);
          sun = lerp (sunLight s) 0.8 (dt * 0.6);
          torch = lerp (torchLight s) 0.0 (dt * 1.2);
          ms2 = nodeMotion t dt ms1
      in s\<lparr>elapsedTime := t, nodeGroup := ms2, particlePool := pool,
           sunLight := sun, torchLight := torch, cameraPos := cam\<rparr>)"

subsection \<open>Sessions\<close>

text \<open>
  What happens after the build: the three pointer events, a click on the reset button, a
  frame, and the orbit controller moving the camera from its own listeners.
\<close>

datatype event =
    PointerDown "(obj \<times> vec3) list" "nat \<Rightarrow> draws"
  | PointerMove vec3 vec3
  | PointerUp
  | ResetClick
  | Frame real vec3
  | Orbit vec3

fun handle :: "event \<Rightarrow> session \<Rightarrow> error option \<times> session" where
  "handle (PointerDown intersects rnd) s = onPointerDown intersects rnd s"
| "handle (PointerMove origin dir) s = onPointerMove origin dir s"
| "handle PointerUp s = (None, onPointerUp s)"
| "handle ResetClick s = (None, resetClick s)"
| "handle (Frame dt cam) s = (None, animate dt cam s)"
| "handle (Orbit cam) s = (None, s\<lparr>cameraPos := cam\<rparr>)"

fun objIndex :: "obj \<Rightarrow> nat" where
  "objIndex (MeshObj i) = i"
| "objIndex (SpriteObj i) = i"

text \<open>
  The raycaster is given the meshes of \<^verbatim>\<open>nodeMap\<close> and reports only these and their
  sprites; \<^verbatim>\<open>Math.random()\<close> is in \<open>[0, 1)\<close>.
\<close>

fun event_ok :: "session \<Rightarrow> event \<Rightarrow> bool" where
  "event_ok s (PointerDown intersects rnd) \<longleftrightarrow>
     list_all (\<lambda>h. objIndex (fst h) \<in> snd ` set (nodeMap s)) intersects \<and>
     list_all (\<lambda>k. draws_ok (rnd k)) [0..<8]"
| "event_ok s _ \<longleftrightarrow> True"

text \<open>
  The sessions that the build and the events produce. A handler that throws leaves the
  session as it was at the throw.
\<close>

inductive reachable :: "session \<Rightarrow> bool" where
  built: "build measureText jit ns es = Inr s \<Longrightarrow> reachable s"
| step: "reachable s \<Longrightarrow> event_ok s ev \<Longrightarrow> reachable (snd (handle ev s))"

subsection \<open>Well-formed sessions\<close>

text \<open>
  A mesh is fresh when its scale and emissive state are those the node loop gave it.
\<close>

definition fresh :: "mesh \<Rightarrow> bool" where
  "fresh m \<longleftrightarrow> m_scale m = setScalar (baseScale m) \<and> emissiveIntensity m = 0 \<and> emissive m = 0"

text \<open>
  \<^verbatim>\<open>nodeMap\<close> holds each id once and each mesh once, every entry is a mesh of
  \<^verbatim>\<open>nodeGroup\<close> with that id, every mesh carries the size of its category as base scale, and
  a mesh that \<^verbatim>\<open>nodeMap\<close> no longer holds (its id was used again) is fresh.
\<close>

definition nodes_wf :: "mesh list \<Rightarrow> (string \<times> nat) list \<Rightarrow> bool" where
  "nodes_wf ms nm \<longleftrightarrow>
     distinct (map fst nm) \<and> distinct (map snd nm) \<and>
     (\<forall>(k, i) \<in> set nm. i < length ms \<and> m_id (ms ! i) = k) \<and>
     (\<forall>i < length ms. baseScale (ms ! i) = st_size (styleOf (m_category (ms ! i))) \<and>
                      (i \<notin> snd ` set nm \<longrightarrow> fresh (ms ! i)))"

definition wf :: "session \<Rightarrow> bool" where
  "wf s \<longleftrightarrow>
     length (particlePool s) = PARTICLE_MAX \<and>
     nodes_wf (nodeGroup s) (nodeMap s) \<and>
     (\<forall>l \<in> set (edgeGroup s). l_a l \<in> fst ` set (nodeMap s) \<and> l_b l \<in> fst ` set (nodeMap s)) \<and>
     (\<forall>ob. dragging s = Some ob \<longrightarrow> objIndex ob \<in> snd ` set (nodeMap s))"


text \<open>
  Every label of a mesh is a key of the texture cache, the texture of the mesh is the cached
  one, the cache has no other keys, and one texture was generated for each key.
\<close>

definition cache_wf :: "mesh list \<Rightarrow> texcache \<Rightarrow> bool" where
  "cache_wf ms tc \<longleftrightarrow>
     distinct (map fst (labelCanvasCache tc)) \<and>
     generated tc = length (labelCanvasCache tc) \<and>
     fst ` set (labelCanvasCache tc) = m_label ` set ms \<and>
     (\<forall>m \<in> set ms. map_of (labelCanvasCache tc) (m_label m) = Some (labelTex m))"

text \<open>The label of a mesh and the texture of its sprite.\<close>

definition lab :: "mesh \<Rightarrow> string \<times> texture" where
  "lab m = (m_label m, labelTex m)"

section \<open>Invariants of the build and of the handlers\<close>

subsection \<open>Lists, the pool and the node loop\<close>

lemma scanPool_length: "length (scanPool origin c r ps) = length ps"
  by (induction ps) auto

lemma scanPool_all_alive: "\<forall>p\<in>set ps. alive p \<Longrightarrow> scanPool origin c r ps = ps"
  by (induction ps) auto

lemma scanPool_first_idle:
  "i < length ps \<Longrightarrow> \<not> alive (ps ! i) \<Longrightarrow> \<forall>j<i. alive (ps ! j) \<Longrightarrow>
   scanPool origin c r ps = ps[i := spawnInit origin c r (ps ! i)]"
proof (induction ps arbitrary: i)
  case Nil
  then show ?case by simp
next
  case (Cons p ps)
  show ?case
  proof (cases i)
    case 0
    with Cons.prems show ?thesis by simp
  next
    case (Suc k)
    with Cons.prems have "alive p" by auto
    moreover have "\<forall>j<k. alive (ps ! j)" using Cons.prems(3) Suc by auto
    ultimately show ?thesis using Cons.IH[of k] Cons.prems Suc by simp
  qed
qed

lemma spawnParticles_length: "length (spawnParticles origin color r ps) = length ps"
  by (simp add: spawnParticles_def scanPool_length)

lemma burst_length:
  "length (fold (\<lambda>k. spawnParticles origin color (rnd k)) ks ps) = length ps"
  by (induction ks arbitrary: ps) (auto simp: spawnParticles_length)

lemma updateParticles_length: "length (updateParticles dt ps) = length ps"
  by (simp add: updateParticles_def)

lemma forEachNode_length: "length (forEachNode f nm ms) = length ms"
  unfolding forEachNode_def by (induction nm arbitrary: ms) (auto split: prod.splits)

lemma forEachNode_nth:
  "distinct (map snd nm) \<Longrightarrow> j < length ms \<Longrightarrow>
   forEachNode f nm ms ! j = (if j \<in> snd ` set nm then f (ms ! j) else ms ! j)"
  unfolding forEachNode_def
proof (induction nm arbitrary: ms)
  case Nil
  then show ?case by simp
next
  case (Cons a nm)
  obtain k i where a: "a = (k, i)" by (cases a)
  have d: "distinct (map snd nm)" and ni: "i \<notin> snd ` set nm" using Cons.prems a by auto
  have len: "j < length (ms[i := f (ms ! i)])" using Cons.prems by simp
  show ?case
  proof (cases "j = i")
    case True
    then show ?thesis using Cons.IH[OF d len] ni a Cons.prems(2) by simp
  next
    case False
    then show ?thesis using Cons.IH[OF d len] a Cons.prems(2) by auto
  qed
qed

lemma nodeMotion_length: "length (nodeMotion t dt ms) = length ms"
  by (simp add: nodeMotion_def)

lemma nodeMotion_nth:
  "i < length ms \<Longrightarrow>
   nodeMotion t dt ms ! i =
     (ms ! i)\<lparr>m_position := Vector3 (vx (m_position (ms ! i)))
        (vy (m_position (ms ! i)) + sin (t * 0.3 + real i) * 0.08 * dt)
        (vz (m_position (ms ! i)))\<rparr>"
  by (simp add: nodeMotion_def nth_enumerate_eq)

lemma update_set_subset: "set (AList.update k v al) \<subseteq> insert (k, v) (set al)"
  by (induction al) auto

lemma update_values_distinct:
  "v \<notin> snd ` set al \<Longrightarrow> distinct (map snd al) \<Longrightarrow> distinct (map snd (AList.update k v al))"
proof (induction al)
  case Nil
  then show ?case by simp
next
  case (Cons a al)
  obtain k' w where a: "a = (k', w)" by (cases a)
  show ?case
  proof (cases "k' = k")
    case True
    then show ?thesis using Cons.prems a by (auto simp: image_iff)
  next
    case False
    have "w \<notin> snd ` set (AList.update k v al)"
      using update_set_subset[of k v al] Cons.prems a by (auto simp: image_iff)
    then show ?thesis using Cons a False by (auto simp: image_iff)
  qed
qed

lemma styleOf_size_pos: "0 < st_size (styleOf c)"
  by (cases c) (simp_all add: styleOf_def categoryStyle_default_def)

lemma nodes_wf_pointwise:
  assumes wf: "nodes_wf ms nm" and len: "length ms' = length ms"
    and pt: "\<And>i. i < length ms \<Longrightarrow>
          m_id (ms' ! i) = m_id (ms ! i) \<and> baseScale (ms' ! i) = baseScale (ms ! i) \<and>
          m_category (ms' ! i) = m_category (ms ! i) \<and>
          (i \<notin> snd ` set nm \<longrightarrow> fresh (ms ! i) \<longrightarrow> fresh (ms' ! i))"
  shows "nodes_wf ms' nm"
  using wf len pt unfolding nodes_wf_def by (auto split: prod.splits)

lemma nodes_wf_update:
  assumes wf: "nodes_wf ms nm" and i: "i \<in> snd ` set nm"
    and m: "m_id m' = m_id (ms ! i)" "baseScale m' = baseScale (ms ! i)"
           "m_category m' = m_category (ms ! i)"
  shows "nodes_wf (ms[i := m']) nm"
proof (rule nodes_wf_pointwise[OF wf])
  show "length (ms[i := m']) = length ms" by simp
next
  fix j assume "j < length ms"
  then show "m_id (ms[i := m'] ! j) = m_id (ms ! j) \<and>
          baseScale (ms[i := m'] ! j) = baseScale (ms ! j) \<and>
          m_category (ms[i := m'] ! j) = m_category (ms ! j) \<and>
          (j \<notin> snd ` set nm \<longrightarrow> fresh (ms ! j) \<longrightarrow> fresh (ms[i := m'] ! j))"
    using i m by (cases "j = i") auto
qed

lemma nodes_wf_forEachNode:
  assumes wf: "nodes_wf ms nm"
    and f: "\<And>m. m_id (f m) = m_id m \<and> baseScale (f m) = baseScale m \<and> m_category (f m) = m_category m"
  shows "nodes_wf (forEachNode f nm ms) nm"
proof (rule nodes_wf_pointwise[OF wf])
  show "length (forEachNode f nm ms) = length ms" by (rule forEachNode_length)
next
  fix i assume i: "i < length ms"
  have d: "distinct (map snd nm)" using wf by (simp add: nodes_wf_def)
  show "m_id (forEachNode f nm ms ! i) = m_id (ms ! i) \<and>
          baseScale (forEachNode f nm ms ! i) = baseScale (ms ! i) \<and>
          m_category (forEachNode f nm ms ! i) = m_category (ms ! i) \<and>
          (i \<notin> snd ` set nm \<longrightarrow> fresh (ms ! i) \<longrightarrow> fresh (forEachNode f nm ms ! i))"
    using forEachNode_nth[OF d i, of f] f by simp
qed

lemma nodes_wf_nodeMotion:
  assumes wf: "nodes_wf ms nm"
  shows "nodes_wf (nodeMotion t dt ms) nm"
  by (rule nodes_wf_pointwise[OF wf]) (simp_all add: nodeMotion_length nodeMotion_nth fresh_def)

lemma map_of_entry:
  "nodes_wf ms nm \<Longrightarrow> i \<in> snd ` set nm \<Longrightarrow> map_of nm (m_id (ms ! i)) = Some i"
  unfolding nodes_wf_def by (auto split: prod.splits)

lemma entry_in_range: "nodes_wf ms nm \<Longrightarrow> i \<in> snd ` set nm \<Longrightarrow> i < length ms"
  unfolding nodes_wf_def by (auto split: prod.splits)

lemma createNode_wf:
  assumes wf: "nodes_wf ms nm" and fr: "\<forall>m \<in> set ms. fresh m"
    and cn: "createNode measureText j n (ms, nm, tc) = (ms', nm', tc')"
  shows "nodes_wf ms' nm' \<and> (\<forall>m \<in> set ms'. fresh m)"
proof -
  obtain m where ms': "ms' = ms @ [m]" and nm': "nm' = AList.update (n_id n) (length ms) nm"
    and m: "m_id m = n_id n" "baseScale m = st_size (styleOf (m_category m))" "fresh m"
    using cn unfolding createNode_def by (auto simp: Let_def fresh_def split: prod.splits)
  have d1: "distinct (map fst nm)" and d2: "distinct (map snd nm)"
    and ent: "\<And>k i. (k, i) \<in> set nm \<Longrightarrow> i < length ms \<and> m_id (ms ! i) = k"
    and bs: "\<And>i. i < length ms \<Longrightarrow> baseScale (ms ! i) = st_size (styleOf (m_category (ms ! i)))"
    using wf unfolding nodes_wf_def by auto
  have nin: "length ms \<notin> snd ` set nm" using ent by fastforce
  have a: "distinct (map fst nm')" using d1 nm' by (simp add: distinct_update)
  have b: "distinct (map snd nm')" using update_values_distinct[OF nin d2] nm' by simp
  have c: "\<forall>(k, i) \<in> set nm'. i < length ms' \<and> m_id (ms' ! i) = k"
  proof (clarify)
    fix k i assume ki: "(k, i) \<in> set nm'"
    then have "(k, i) = (n_id n, length ms) \<or> (k, i) \<in> set nm"
      using update_set_subset[of "n_id n" "length ms" nm] nm' by auto
    then show "i < length ms' \<and> m_id (ms' ! i) = k"
    proof
      assume "(k, i) = (n_id n, length ms)"
      then show ?thesis using ms' m by simp
    next
      assume "(k, i) \<in> set nm"
      then show ?thesis using ent[of k i] ms' by (simp add: nth_append)
    qed
  qed
  have fr': "\<forall>m \<in> set ms'. fresh m" using fr ms' m by auto
  have e: "\<forall>i < length ms'. baseScale (ms' ! i) = st_size (styleOf (m_category (ms' ! i))) \<and>
                      (i \<notin> snd ` set nm' \<longrightarrow> fresh (ms' ! i))"
  proof (intro allI impI)
    fix i assume i: "i < length ms'"
    have "baseScale (ms' ! i) = st_size (styleOf (m_category (ms' ! i)))"
      using i ms' m bs[of i] by (cases "i < length ms") (auto simp: nth_append less_Suc_eq)
    moreover have "fresh (ms' ! i)" using fr' i by simp
    ultimately show "baseScale (ms' ! i) = st_size (styleOf (m_category (ms' ! i))) \<and>
                      (i \<notin> snd ` set nm' \<longrightarrow> fresh (ms' ! i))" by simp
  qed
  show ?thesis using a b c e fr' unfolding nodes_wf_def by simp
qed

lemma createNodes_wf:
  "nodes_wf ms nm \<Longrightarrow> \<forall>m \<in> set ms. fresh m \<Longrightarrow>
   createNodes measureText jit ns (ms, nm, tc) = (ms', nm', tc') \<Longrightarrow>
   nodes_wf ms' nm' \<and> (\<forall>m \<in> set ms'. fresh m)"
proof (induction ns arbitrary: ms nm tc)
  case Nil
  then show ?case by simp
next
  case (Cons n ns)
  obtain ms1 nm1 tc1 where st: "createNode measureText (jit (length ms)) n (ms, nm, tc) = (ms1, nm1, tc1)"
    by (cases "createNode measureText (jit (length ms)) n (ms, nm, tc)") auto
  have w1: "nodes_wf ms1 nm1 \<and> (\<forall>m \<in> set ms1. fresh m)"
    using createNode_wf[OF Cons.prems(1,2) st] .
  show ?case using Cons.IH[of ms1 nm1 tc1] w1 Cons.prems(3) st by simp
qed

lemma createEdges_result:
  "createEdges ms nm es acc = Inr ls \<Longrightarrow>
   ls = acc @ map (\<lambda>(a, b). \<lparr>l_a = a, l_b = b,
          geometry = setFromPoints (m_position (ms ! the (map_of nm a)))
                                  (m_position (ms ! the (map_of nm b)))\<rparr>) es
   \<and> (\<forall>(a, b) \<in> set es. a \<in> fst ` set nm \<and> b \<in> fst ` set nm)"
proof (induction es arbitrary: acc)
  case Nil
  then show ?case by simp
next
  case (Cons e es)
  obtain a b where e: "e = (a, b)" by (cases e)
  from Cons.prems e obtain ia ib where ia: "map_of nm a = Some ia" and ib: "map_of nm b = Some ib"
    and rest: "createEdges ms nm es (acc @ [\<lparr>l_a = a, l_b = b,
                         geometry = setFromPoints (m_position (ms ! ia)) (m_position (ms ! ib))\<rparr>]) = Inr ls"
    by (auto split: option.splits)
  have "a \<in> fst ` set nm" "b \<in> fst ` set nm"
    using ia ib by (auto dest!: map_of_SomeD simp: image_iff intro: bexI[where x="(a, ia)"] bexI[where x="(b, ib)"])
  then show ?case using Cons.IH[OF rest] e ia ib by simp
qed

lemma createEdges_present:
  "\<forall>(a, b) \<in> set es. a \<in> fst ` set nm \<and> b \<in> fst ` set nm \<Longrightarrow>
   \<exists>ls. createEdges ms nm es acc = Inr ls"
proof (induction es arbitrary: acc)
  case Nil
  then show ?case by simp
next
  case (Cons e es)
  obtain a b where e: "e = (a, b)" by (cases e)
  have "map_of nm a \<noteq> None" "map_of nm b \<noteq> None"
    using Cons.prems e by (simp_all add: map_of_eq_None_iff)
  then obtain ia ib where "map_of nm a = Some ia" "map_of nm b = Some ib"
    by auto
  then show ?case using Cons e by simp
qed

lemma build_wf:
  assumes "build measureText jit ns es = Inr s"
  shows "wf s"
proof -
  obtain ms nm tc where cn: "createNodes measureText jit ns ([], [], \<lparr>labelCanvasCache = [], generated = 0\<rparr>) = (ms, nm, tc)"
    by (metis prod_cases3)
  obtain ls where ce: "createEdges ms nm es [] = Inr ls"
    and s: "s = \<lparr>cameraPos = Vector3 0 30 80, sunLight = 0.8, torchLight = 0.0,
                    nodeGroup = ms, nodeMap = nm, edgeGroup = ls,
                    particlePool = initialPool, textures = tc,
                    dragging = None, dragOffset = Vector3 0 0 0, elapsedTime = 0\<rparr>"
    using assms cn unfolding build_def by (auto split: sum.splits)
  have "nodes_wf [] []" by (simp add: nodes_wf_def)
  then have nw: "nodes_wf ms nm" using createNodes_wf[OF _ _ cn] by simp
  have "\<forall>l \<in> set ls. l_a l \<in> fst ` set nm \<and> l_b l \<in> fst ` set nm"
    using createEdges_result[OF ce] by (auto split: prod.splits)
  then show ?thesis using nw s by (simp add: wf_def initialPool_def)
qed

subsection \<open>The handlers keep sessions well-formed\<close>

lemma wf_fields:
  "wf s \<Longrightarrow> nodeMap s' = nodeMap s \<Longrightarrow> edgeGroup s' = edgeGroup s \<Longrightarrow> dragging s' = dragging s \<Longrightarrow>
   length (particlePool s') = length (particlePool s) \<Longrightarrow> nodes_wf (nodeGroup s') (nodeMap s) \<Longrightarrow> wf s'"
  by (simp add: wf_def)

lemma onNodeActivate_None: "onNodeActivate None rnd s = (Some TypeError, s)"
  by (simp add: onNodeActivate_def)

lemma onNodeActivate_wf:
  assumes wf: "wf s" and i: "i \<in> snd ` set (nodeMap s)"
  shows "wf (snd (onNodeActivate (Some i) rnd s))"
proof (rule wf_fields[OF wf])
  let ?s' = "snd (onNodeActivate (Some i) rnd s)"
  show "nodeMap ?s' = nodeMap s" "edgeGroup ?s' = edgeGroup s" "dragging ?s' = dragging s"
    by (simp_all add: onNodeActivate_def Let_def)
  show "length (particlePool ?s') = length (particlePool s)"
    by (simp add: onNodeActivate_def Let_def burst_length)
  have nw: "nodes_wf (nodeGroup s) (nodeMap s)" using wf by (simp add: wf_def)
  show "nodes_wf (nodeGroup ?s') (nodeMap s)"
    using nodes_wf_update[OF nw i] by (simp add: onNodeActivate_def Let_def)
qed

lemma updateEdges_topology:
  "updateEdges pos d ls = (e, ls') \<Longrightarrow> map l_a ls' = map l_a ls \<and> map l_b ls' = map l_b ls"
  by (induction ls arbitrary: e ls') (auto split: if_splits option.splits prod.splits)

lemma edges_ok_topology:
  assumes "map l_a ls' = map l_a ls" "map l_b ls' = map l_b ls"
    and "\<forall>l \<in> set ls. l_a l \<in> K \<and> l_b l \<in> K"
  shows "\<forall>l \<in> set ls'. l_a l \<in> K \<and> l_b l \<in> K"
proof -
  have "set (map l_a ls') \<subseteq> K" "set (map l_b ls') \<subseteq> K" using assms by auto
  then show ?thesis by auto
qed

lemma onPointerDown_wf:
  assumes wf: "wf s" and ok: "event_ok s (PointerDown intersects rnd)"
  shows "wf (snd (onPointerDown intersects rnd s))"
proof (cases intersects)
  case Nil
  then show ?thesis using wf by (simp add: onPointerDown_def wf_def)
next
  case (Cons h hs)
  obtain ob point where h: "h = (ob, point)" by (cases h)
  have idx: "objIndex ob \<in> snd ` set (nodeMap s)" using ok Cons h by simp
  have nw: "nodes_wf (nodeGroup s) (nodeMap s)" using wf by (simp add: wf_def)
  show ?thesis
  proof (cases ob)
    case (MeshObj i)
    let ?s1 = "s\<lparr>dragging := Some (MeshObj i), dragOffset := sub point (m_position (nodeGroup s ! i))\<rparr>"
    have w1: "wf ?s1" using wf idx MeshObj by (simp add: wf_def)
    have i: "i \<in> snd ` set (nodeMap ?s1)" using idx MeshObj by simp
    have "map_of (nodeMap ?s1) (m_id (nodeGroup s ! i)) = Some i"
      using map_of_entry[OF nw] idx MeshObj by simp
    then show ?thesis
      using onNodeActivate_wf[OF w1 i, of rnd] Cons h MeshObj
      by (simp add: onPointerDown_def Let_def)
  next
    case (SpriteObj i)
    then show ?thesis using wf idx Cons h
      by (simp add: onPointerDown_def Let_def onNodeActivate_None wf_def)
  qed
qed

lemma onPointerMove_Mesh:
  assumes "dragging s = Some (MeshObj i)"
  shows "onPointerMove origin dir s =
     (let s1 = s\<lparr>nodeGroup := (nodeGroup s)[i := (nodeGroup s ! i)\<lparr>m_position :=
        sub (add (multiplyScalar dir (distanceTo (m_position (nodeGroup s ! i)) (cameraPos s))) origin) (dragOffset s)\<rparr>]\<rparr>;
          r = updateEdges (nodePosition s1) (Some (m_id (nodeGroup s ! i))) (edgeGroup s)
      in (fst r, s1\<lparr>edgeGroup := snd r\<rparr>))"
  unfolding onPointerMove_def Let_def using assms by (simp split: prod.splits)

lemma onPointerMove_Sprite:
  assumes "dragging s = Some (SpriteObj i)"
  shows "onPointerMove origin dir s =
     (let s1 = s\<lparr>nodeGroup := (nodeGroup s)[i := (nodeGroup s ! i)\<lparr>spritePos :=
        sub (add (multiplyScalar dir (distanceTo (spritePos (nodeGroup s ! i)) (cameraPos s))) origin) (dragOffset s)\<rparr>]\<rparr>;
          r = updateEdges (nodePosition s1) None (edgeGroup s)
      in (fst r, s1\<lparr>edgeGroup := snd r\<rparr>))"
  unfolding onPointerMove_def Let_def using assms by (simp split: prod.splits)

lemma updateEdges_keeps_ok:
  assumes "\<forall>l \<in> set ls. l_a l \<in> K \<and> l_b l \<in> K"
  shows "\<forall>l \<in> set (snd (updateEdges pos d ls)). l_a l \<in> K \<and> l_b l \<in> K"
proof -
  obtain e ls' where ue: "updateEdges pos d ls = (e, ls')" by (cases "updateEdges pos d ls") auto
  show ?thesis
    using updateEdges_topology[OF ue] edges_ok_topology[of ls' ls K] assms ue by simp
qed

lemma wf_moved:
  assumes wf: "wf s" and i: "i \<in> snd ` set (nodeMap s)"
    and m: "m_id m' = m_id (nodeGroup s ! i)" "baseScale m' = baseScale (nodeGroup s ! i)"
           "m_category m' = m_category (nodeGroup s ! i)"
  shows "wf (s\<lparr>nodeGroup := (nodeGroup s)[i := m'], edgeGroup := snd (updateEdges pos d (edgeGroup s))\<rparr>)"
proof -
  have nw: "nodes_wf (nodeGroup s) (nodeMap s)" using wf by (simp add: wf_def)
  have eo: "\<forall>l \<in> set (edgeGroup s). l_a l \<in> fst ` set (nodeMap s) \<and> l_b l \<in> fst ` set (nodeMap s)"
    using wf by (simp add: wf_def)
  have n1: "nodes_wf ((nodeGroup s)[i := m']) (nodeMap s)"
    by (rule nodes_wf_update[OF nw i m])
  show ?thesis
    using wf n1 updateEdges_keeps_ok[OF eo, of pos d] by (simp add: wf_def)
qed

lemma onPointerMove_wf:
  assumes wf: "wf s"
  shows "wf (snd (onPointerMove origin dir s))"
proof (cases "dragging s")
  case None
  then show ?thesis using wf by (simp add: onPointerMove_def)
next
  case (Some ob)
  have idx: "objIndex ob \<in> snd ` set (nodeMap s)" using wf Some by (simp add: wf_def)
  show ?thesis
  proof (cases ob)
    case (MeshObj i)
    have d: "dragging s = Some (MeshObj i)" and i: "i \<in> snd ` set (nodeMap s)"
      using Some MeshObj idx by simp_all
    show ?thesis
      unfolding onPointerMove_Mesh[OF d] Let_def snd_conv
      by (rule wf_moved[OF wf i]) simp_all
  next
    case (SpriteObj i)
    have d: "dragging s = Some (SpriteObj i)" and i: "i \<in> snd ` set (nodeMap s)"
      using Some SpriteObj idx by simp_all
    show ?thesis
      unfolding onPointerMove_Sprite[OF d] Let_def snd_conv
      by (rule wf_moved[OF wf i]) simp_all
  qed
qed

lemma resetNode_keeps:
  "m_id (resetNode m) = m_id m \<and> baseScale (resetNode m) = baseScale m \<and>
   m_category (resetNode m) = m_category m"
  by (simp add: resetNode_def)

lemma animateNode_keeps:
  "m_id (animateNode dt m) = m_id m \<and> baseScale (animateNode dt m) = baseScale m \<and>
   m_category (animateNode dt m) = m_category m"
  by (simp add: animateNode_def Let_def split: option.splits)

lemma resetClick_wf:
  assumes wf: "wf s"
  shows "wf (resetClick s)"
proof (rule wf_fields[OF wf])
  have nw: "nodes_wf (nodeGroup s) (nodeMap s)" using wf by (simp add: wf_def)
  show "nodes_wf (nodeGroup (resetClick s)) (nodeMap s)"
    using nodes_wf_forEachNode[OF nw, of resetNode] resetNode_keeps by (simp add: resetClick_def)
qed (simp_all add: resetClick_def)

lemma animate_wf:
  assumes wf: "wf s"
  shows "wf (animate dt cam s)"
proof (rule wf_fields[OF wf])
  have nw: "nodes_wf (nodeGroup s) (nodeMap s)" using wf by (simp add: wf_def)
  have "nodes_wf (forEachNode (animateNode dt) (nodeMap s) (nodeGroup s)) (nodeMap s)"
    using nodes_wf_forEachNode[OF nw, of "animateNode dt"] animateNode_keeps by simp
  then show "nodes_wf (nodeGroup (animate dt cam s)) (nodeMap s)"
    using nodes_wf_nodeMotion by (simp add: animate_def Let_def)
qed (simp_all add: animate_def Let_def updateParticles_length)

lemma handle_wf:
  assumes wf: "wf s" and ok: "event_ok s ev"
  shows "wf (snd (handle ev s))"
proof (cases ev)
  case (PointerDown intersects rnd)
  then show ?thesis using onPointerDown_wf[OF wf] ok by simp
next
  case (PointerMove origin dir)
  then show ?thesis using onPointerMove_wf[OF wf] by simp
next
  case PointerUp
  then show ?thesis using wf by (simp add: onPointerUp_def wf_def)
next
  case ResetClick
  then show ?thesis using resetClick_wf[OF wf] by simp
next
  case (Frame dt cam)
  then show ?thesis using animate_wf[OF wf] by simp
next
  case (Orbit cam)
  then show ?thesis using wf by (simp add: wf_def)
qed

lemma reachable_wf: "reachable s \<Longrightarrow> wf s"
  by (induction rule: reachable.induct) (auto intro: build_wf handle_wf)

section \<open>Spawning and updating particles\<close>

lemma takeWhile_alive_nth:
  assumes "j < length (takeWhile alive ps)"
  shows "alive (ps ! j)"
proof -
  have "takeWhile alive ps ! j \<in> set (takeWhile alive ps)" using assms by (rule nth_mem)
  then have "alive (takeWhile alive ps ! j)" by (rule set_takeWhileD[THEN conjunct2])
  moreover have "takeWhile alive ps ! j = ps ! j" using assms by (rule takeWhile_nth)
  ultimately show ?thesis by simp
qed

lemma takeWhile_first_idle:
  assumes a: "i < length ps" "\<not> alive (ps ! i)" "\<forall>j<i. alive (ps ! j)"
  shows "length (takeWhile alive ps) = i"
proof -
  have "\<not> i < length (takeWhile alive ps)" using takeWhile_alive_nth[of i ps] a(2) by blast
  moreover have "\<not> length (takeWhile alive ps) < i"
  proof
    assume lt: "length (takeWhile alive ps) < i"
    then have "length (takeWhile alive ps) < length ps" using a(1) by simp
    then have "\<not> alive (ps ! length (takeWhile alive ps))" by (rule nth_length_takeWhile)
    then show False using a(3) lt by simp
  qed
  ultimately show ?thesis by simp
qed

lemma scanPool_takeWhile:
  "scanPool origin c r ps =
     (if length (takeWhile alive ps) < length ps
      then ps[length (takeWhile alive ps) := spawnInit origin c r (ps ! length (takeWhile alive ps))]
      else ps)"
  by (induction ps) simp_all

lemma scanPool_other:
  "j \<noteq> length (takeWhile alive ps) \<Longrightarrow> scanPool origin c r ps ! j = ps ! j"
  by (simp add: scanPool_takeWhile)

text \<open>
  Claim C7. A call of \<^verbatim>\<open>spawnParticles\<close> with a colour whose scan finds an idle particle
  replaces exactly the first idle slot, in the order of the scan, by a particle that is alive,
  has a life of \<open>0.7 + 0.6 * random\<close> seconds, which lies between 0.7 and 1.3, the random
  velocity \<open>((random - 0.5) * 6, random * 6, (random - 0.5) * 6)\<close> (sideways in
  \<open>[-3, 3)\<close>, upwards in \<open>[0, 6)\<close>), the position of the origin, the given colour, opacity
  1 and is visible. When no slot is idle the call returns the pool as it was.
\<close>

theorem spawnParticles_first_idle:
  assumes r: "draws_ok r"
  shows "(\<forall>i. i < length pool \<and> \<not> alive (pool ! i) \<and> (\<forall>j<i. alive (pool ! j)) \<longrightarrow>
            (\<exists>q. spawnParticles origin (Some c) r pool = pool[i := q] \<and>
                 alive q \<and> life q = 0.7 + d_life r * 0.6 \<and> 0.7 \<le> life q \<and> life q \<le> 1.3 \<and>
                 velocity q = Vector3 ((d_vx r - 0.5) * 6) (d_vy r * 6) ((d_vz r - 0.5) * 6) \<and>
                 - 3 \<le> vx (velocity q) \<and> vx (velocity q) < 3 \<and>
                 0 \<le> vy (velocity q) \<and> vy (velocity q) < 6 \<and>
                 - 3 \<le> vz (velocity q) \<and> vz (velocity q) < 3 \<and>
                 p_position q = origin \<and> p_color q = c \<and> opacity q = 1 \<and> visible q)) \<and>
         ((\<forall>p \<in> set pool. alive p) \<longrightarrow> spawnParticles origin (Some c) r pool = pool)"
proof (intro conjI allI impI)
  fix i assume a: "i < length pool \<and> \<not> alive (pool ! i) \<and> (\<forall>j<i. alive (pool ! j))"
  let ?q = "spawnInit origin c r (pool ! i)"
  have eq: "spawnParticles origin (Some c) r pool = pool[i := ?q]"
    using a by (simp add: spawnParticles_def scanPool_first_idle)
  have "alive ?q \<and> life ?q = 0.7 + d_life r * 0.6 \<and> 0.7 \<le> life ?q \<and> life ?q \<le> 1.3 \<and>
        velocity ?q = Vector3 ((d_vx r - 0.5) * 6) (d_vy r * 6) ((d_vz r - 0.5) * 6) \<and>
        - 3 \<le> vx (velocity ?q) \<and> vx (velocity ?q) < 3 \<and>
        0 \<le> vy (velocity ?q) \<and> vy (velocity ?q) < 6 \<and>
        - 3 \<le> vz (velocity ?q) \<and> vz (velocity ?q) < 3 \<and>
        p_position ?q = origin \<and> p_color ?q = c \<and> opacity ?q = 1 \<and> visible ?q"
    using r by (simp add: spawnInit_def draws_ok_def)
  with eq show "\<exists>q. spawnParticles origin (Some c) r pool = pool[i := q] \<and>
                 alive q \<and> life q = 0.7 + d_life r * 0.6 \<and> 0.7 \<le> life q \<and> life q \<le> 1.3 \<and>
                 velocity q = Vector3 ((d_vx r - 0.5) * 6) (d_vy r * 6) ((d_vz r - 0.5) * 6) \<and>
                 - 3 \<le> vx (velocity q) \<and> vx (velocity q) < 3 \<and>
                 0 \<le> vy (velocity q) \<and> vy (velocity q) < 6 \<and>
                 - 3 \<le> vz (velocity q) \<and> vz (velocity q) < 3 \<and>
                 p_position q = origin \<and> p_color q = c \<and> opacity q = 1 \<and> visible q"
    by blast
next
  assume "\<forall>p \<in> set pool. alive p"
  then show "spawnParticles origin (Some c) r pool = pool"
    by (simp add: spawnParticles_def scanPool_all_alive)
qed

theorem spawnParticles_first_idle_witness:
  "draws_ok \<lparr>d_life = 1/2, d_scale = 1/2, d_vx = 1/4, d_vy = 1/2, d_vz = 3/4\<rparr> \<and>
   (\<exists>q. spawnParticles (Vector3 1 2 3) (Some 0x60e6ff)
          \<lparr>d_life = 1/2, d_scale = 1/2, d_vx = 1/4, d_vy = 1/2, d_vz = 3/4\<rparr>
          [newParticle\<lparr>alive := True\<rparr>, newParticle, newParticle]
        = [newParticle\<lparr>alive := True\<rparr>, q, newParticle] \<and>
        alive q \<and> life q = 1 \<and> 0.7 \<le> life q \<and> life q \<le> 1.3 \<and>
        velocity q = Vector3 (- 3/2) 3 (3/2) \<and>
        p_position q = Vector3 1 2 3 \<and> p_color q = 0x60e6ff \<and> opacity q = 1 \<and> visible q) \<and>
   spawnParticles (Vector3 1 2 3) (Some 0x60e6ff)
          \<lparr>d_life = 1/2, d_scale = 1/2, d_vx = 1/4, d_vy = 1/2, d_vz = 3/4\<rparr>
          [newParticle\<lparr>alive := True\<rparr>] = [newParticle\<lparr>alive := True\<rparr>]"
proof -
  let ?r = "\<lparr>d_life = 1/2, d_scale = 1/2, d_vx = 1/4, d_vy = 1/2, d_vz = 3/4\<rparr>"
  let ?pa = "newParticle\<lparr>alive := True\<rparr>"
  have d: "draws_ok ?r" by (simp add: draws_ok_def)
  have h1: "(1::nat) < length [?pa, newParticle, newParticle] \<and>
            \<not> alive ([?pa, newParticle, newParticle] ! 1) \<and>
            (\<forall>j<1. alive ([?pa, newParticle, newParticle] ! j))"
    by (simp add: newParticle_def)
  have h2: "\<forall>p \<in> set [?pa]. alive p" by simp
  from spawnParticles_first_idle[OF d, of "[?pa, newParticle, newParticle]" "Vector3 1 2 3" "0x60e6ff"] h1
  have a: "\<exists>q. spawnParticles (Vector3 1 2 3) (Some 0x60e6ff) ?r [?pa, newParticle, newParticle]
                = [?pa, newParticle, newParticle][1 := q] \<and>
                 alive q \<and> life q = 0.7 + d_life ?r * 0.6 \<and> 0.7 \<le> life q \<and> life q \<le> 1.3 \<and>
                 velocity q = Vector3 ((d_vx ?r - 0.5) * 6) (d_vy ?r * 6) ((d_vz ?r - 0.5) * 6) \<and>
                 - 3 \<le> vx (velocity q) \<and> vx (velocity q) < 3 \<and>
                 0 \<le> vy (velocity q) \<and> vy (velocity q) < 6 \<and>
                 - 3 \<le> vz (velocity q) \<and> vz (velocity q) < 3 \<and>
                 p_position q = Vector3 1 2 3 \<and> p_color q = 0x60e6ff \<and> opacity q = 1 \<and> visible q"
    by blast
  from spawnParticles_first_idle[OF d, of "[?pa]" "Vector3 1 2 3" "0x60e6ff"] h2
  have b: "spawnParticles (Vector3 1 2 3) (Some 0x60e6ff) ?r [?pa] = [?pa]" by blast
  from a obtain q where q: "spawnParticles (Vector3 1 2 3) (Some 0x60e6ff) ?r [?pa, newParticle, newParticle]
                = [?pa, newParticle, newParticle][1 := q]"
      "alive q" "life q = 0.7 + d_life ?r * 0.6" "0.7 \<le> life q" "life q \<le> 1.3"
      "velocity q = Vector3 ((d_vx ?r - 0.5) * 6) (d_vy ?r * 6) ((d_vz ?r - 0.5) * 6)"
      "p_position q = Vector3 1 2 3" "p_color q = 0x60e6ff" "opacity q = 1" "visible q"
    by blast
  have "spawnParticles (Vector3 1 2 3) (Some 0x60e6ff) ?r [?pa, newParticle, newParticle]
          = [?pa, q, newParticle]" using q(1) by simp
  moreover have "life q = 1" using q(3) by simp
  moreover have "velocity q = Vector3 (- 3/2) 3 (3/2)" using q(6) by simp
  ultimately show ?thesis using d b q by blast
qed

text \<open>
  Claim C10. One call of \<^verbatim>\<open>spawnParticles\<close> keeps the number of particles and leaves
  every particle other than the one at the index of the first idle slot (the number of alive
  particles in front of it) unchanged in every field; that index, when it is in the pool,
  holds an idle particle with only alive ones before it, and when there is none the pool is
  unchanged altogether.
\<close>

theorem spawnParticles_frame:
  "length (spawnParticles origin color r pool) = length pool \<and>
   (\<forall>j < length pool. j \<noteq> length (takeWhile alive pool) \<longrightarrow>
        spawnParticles origin color r pool ! j = pool ! j) \<and>
   (length (takeWhile alive pool) < length pool \<longrightarrow>
        \<not> alive (pool ! length (takeWhile alive pool)) \<and>
        (\<forall>j < length (takeWhile alive pool). alive (pool ! j))) \<and>
   (length (takeWhile alive pool) = length pool \<longrightarrow>
        spawnParticles origin color r pool = pool)"
proof (intro conjI allI impI)
  show "length (spawnParticles origin color r pool) = length pool"
    by (rule spawnParticles_length)
next
  fix j assume "j \<noteq> length (takeWhile alive pool)"
  then show "spawnParticles origin color r pool ! j = pool ! j"
    by (simp add: spawnParticles_def scanPool_other)
next
  assume k: "length (takeWhile alive pool) < length pool"
  then show "\<not> alive (pool ! length (takeWhile alive pool))"
    by (rule nth_length_takeWhile)
next
  fix j assume k: "length (takeWhile alive pool) < length pool" and j: "j < length (takeWhile alive pool)"
  show "alive (pool ! j)" using j by (rule takeWhile_alive_nth)
next
  assume "length (takeWhile alive pool) = length pool"
  then show "spawnParticles origin color r pool = pool"
    by (simp add: spawnParticles_def scanPool_takeWhile)
qed

theorem spawnParticles_frame_witness:
  "length (takeWhile alive [newParticle\<lparr>alive := True\<rparr>, newParticle, newParticle]) = 1 \<and>
   spawnParticles (Vector3 1 2 3) None
       \<lparr>d_life = 1/2, d_scale = 1/2, d_vx = 1/4, d_vy = 1/2, d_vz = 3/4\<rparr>
       [newParticle\<lparr>alive := True\<rparr>, newParticle, newParticle] ! 0 = newParticle\<lparr>alive := True\<rparr> \<and>
   spawnParticles (Vector3 1 2 3) None
       \<lparr>d_life = 1/2, d_scale = 1/2, d_vx = 1/4, d_vy = 1/2, d_vz = 3/4\<rparr>
       [newParticle\<lparr>alive := True\<rparr>, newParticle, newParticle] ! 2 = newParticle \<and>
   length (takeWhile alive [newParticle\<lparr>alive := True\<rparr>]) = length [newParticle\<lparr>alive := True\<rparr>] \<and>
   spawnParticles (Vector3 1 2 3) None
       \<lparr>d_life = 1/2, d_scale = 1/2, d_vx = 1/4, d_vy = 1/2, d_vz = 3/4\<rparr>
       [newParticle\<lparr>alive := True\<rparr>] = [newParticle\<lparr>alive := True\<rparr>]"
proof -
  let ?r = "\<lparr>d_life = 1/2, d_scale = 1/2, d_vx = 1/4, d_vy = 1/2, d_vz = 3/4\<rparr>"
  let ?pa = "newParticle\<lparr>alive := True\<rparr>"
  have k: "length (takeWhile alive [?pa, newParticle, newParticle]) = 1"
    by (simp add: newParticle_def)
  have k1: "length (takeWhile alive [?pa]) = length [?pa]" by simp
  note t = spawnParticles_frame[of "Vector3 1 2 3" None ?r "[?pa, newParticle, newParticle]"]
  note u = spawnParticles_frame[of "Vector3 1 2 3" None ?r "[?pa]"]
  have "spawnParticles (Vector3 1 2 3) None ?r [?pa, newParticle, newParticle] ! 0
          = [?pa, newParticle, newParticle] ! 0"
    using t k by simp
  moreover have "spawnParticles (Vector3 1 2 3) None ?r [?pa, newParticle, newParticle] ! 2
          = [?pa, newParticle, newParticle] ! 2"
    using t k by simp
  moreover have "spawnParticles (Vector3 1 2 3) None ?r [?pa] = [?pa]"
    using u k1 by blast
  ultimately show ?thesis using k k1 by simp
qed

lemma first_idle_le:
  assumes "i < length ps" "\<not> alive (ps ! i)"
  shows "length (takeWhile alive ps) \<le> i"
  using takeWhile_alive_nth[of i ps] assms(2) by (meson not_le)

lemma scanPool_claims:
  assumes "i < length ps" "\<not> alive (ps ! i)"
  shows "\<exists>k\<le>i. \<not> alive (ps ! k) \<and> alive (scanPool origin c r ps ! k)"
proof -
  let ?k = "length (takeWhile alive ps)"
  have k: "?k \<le> i" using assms by (rule first_idle_le)
  then have kl: "?k < length ps" using assms(1) by simp
  then have "\<not> alive (ps ! ?k)" by (rule nth_length_takeWhile)
  moreover have "alive (scanPool origin c r ps ! ?k)"
    using kl by (simp add: scanPool_takeWhile spawnInit_def)
  ultimately show ?thesis using k by blast
qed

text \<open>
  Claim C6. In one call of \<^verbatim>\<open>animate\<close> with elapsed time \<open>dt\<close>, a particle that was alive
  has its life reduced by \<open>dt\<close>. If the result is at most 0 it is no longer alive and not
  visible, and a later \<^verbatim>\<open>spawnParticles\<close> call claims an idle slot at or before its index,
  so the slot can be used again. Otherwise it stays alive, its position advances by
  velocity times \<open>dt\<close>, its velocity is multiplied by 0.98 whatever \<open>dt\<close> is, and its
  opacity is its remaining life divided by 1.2.
\<close>

theorem animate_particle_update:
  assumes i: "i < length (particlePool s)" and a: "alive (particlePool s ! i)"
  shows "life (particlePool (animate dt cam s) ! i) = life (particlePool s ! i) - dt \<and>
         (life (particlePool s ! i) - dt \<le> 0 \<longrightarrow>
            \<not> alive (particlePool (animate dt cam s) ! i) \<and>
            \<not> visible (particlePool (animate dt cam s) ! i) \<and>
            (\<exists>k\<le>i. \<not> alive (particlePool (animate dt cam s) ! k) \<and>
                    alive (spawnParticles origin color r (particlePool (animate dt cam s)) ! k))) \<and>
         (0 < life (particlePool s ! i) - dt \<longrightarrow>
            alive (particlePool (animate dt cam s) ! i) \<and>
            visible (particlePool (animate dt cam s) ! i) = visible (particlePool s ! i) \<and>
            p_position (particlePool (animate dt cam s) ! i) =
              Vector3 (vx (p_position (particlePool s ! i)) + vx (velocity (particlePool s ! i)) * dt)
                      (vy (p_position (particlePool s ! i)) + vy (velocity (particlePool s ! i)) * dt)
                      (vz (p_position (particlePool s ! i)) + vz (velocity (particlePool s ! i)) * dt) \<and>
            velocity (particlePool (animate dt cam s) ! i) =
              Vector3 (vx (velocity (particlePool s ! i)) * 0.98)
                      (vy (velocity (particlePool s ! i)) * 0.98)
                      (vz (velocity (particlePool s ! i)) * 0.98) \<and>
            opacity (particlePool (animate dt cam s) ! i) = (life (particlePool s ! i) - dt) / 1.2)"
proof -
  let ?p = "particlePool s ! i"
  let ?pool' = "particlePool (animate dt cam s)"
  have q: "?pool' ! i = updateParticle dt ?p"
    using i by (simp add: animate_def Let_def updateParticles_def)
  have len: "i < length ?pool'"
    using i by (simp add: animate_def Let_def updateParticles_def)
  have c1: "life (?pool' ! i) = life ?p - dt"
    unfolding q using a by (simp add: updateParticle_def Let_def)
  have c2: "\<not> alive (?pool' ! i) \<and> \<not> visible (?pool' ! i)" if "life ?p - dt \<le> 0"
    unfolding q using a that by (simp add: updateParticle_def Let_def)
  have c3: "\<exists>k\<le>i. \<not> alive (?pool' ! k) \<and> alive (spawnParticles origin color r ?pool' ! k)"
    if "life ?p - dt \<le> 0"
    unfolding spawnParticles_def using scanPool_claims[OF len] c2[OF that] by blast
  have c4: "alive (?pool' ! i) \<and> visible (?pool' ! i) = visible ?p \<and>
            p_position (?pool' ! i) =
              Vector3 (vx (p_position ?p) + vx (velocity ?p) * dt)
                      (vy (p_position ?p) + vy (velocity ?p) * dt)
                      (vz (p_position ?p) + vz (velocity ?p) * dt) \<and>
            velocity (?pool' ! i) =
              Vector3 (vx (velocity ?p) * 0.98) (vy (velocity ?p) * 0.98) (vz (velocity ?p) * 0.98) \<and>
            opacity (?pool' ! i) = (life ?p - dt) / 1.2" if "0 < life ?p - dt"
    unfolding q using a that
    by (simp add: updateParticle_def Let_def addScaledVector_def multiplyScalar_def)
  show ?thesis using c1 c2 c3 c4 by blast
qed

theorem animate_particle_update_witness:
  "let s = \<lparr>cameraPos = Vector3 0 30 80, sunLight = 0.8, torchLight = 0.0,
             nodeGroup = [], nodeMap = [], edgeGroup = [],
             particlePool =
               [\<lparr>alive = True, life = 0.3, velocity = Vector3 1 2 3, p_position = Vector3 0 0 0,
                 p_scale = 1, p_color = 0xffffff, opacity = 0.25, visible = True\<rparr>,
                \<lparr>alive = True, life = 1, velocity = Vector3 1 2 3, p_position = Vector3 0 0 0,
                 p_scale = 1, p_color = 0xffffff, opacity = 1, visible = True\<rparr>],
             textures = \<lparr>labelCanvasCache = [], generated = 0\<rparr>,
             dragging = None, dragOffset = Vector3 0 0 0, elapsedTime = 0\<rparr>;
       pool' = particlePool (animate 0.5 (Vector3 0 30 80) s)
   in 0 < length (particlePool s) \<and> alive (particlePool s ! 0) \<and>
      life (particlePool s ! 0) - 0.5 \<le> 0 \<and>
      \<not> alive (pool' ! 0) \<and> \<not> visible (pool' ! 0) \<and>
      1 < length (particlePool s) \<and> alive (particlePool s ! 1) \<and>
      0 < life (particlePool s ! 1) - 0.5 \<and>
      alive (pool' ! 1) \<and> life (pool' ! 1) = 1/2 \<and>
      p_position (pool' ! 1) = Vector3 (1/2) 1 (3/2) \<and>
      velocity (pool' ! 1) = Vector3 0.98 1.96 2.94 \<and>
      opacity (pool' ! 1) = 5/12"
proof -
  define s where "s = \<lparr>cameraPos = Vector3 0 30 80, sunLight = 0.8, torchLight = 0.0,
             nodeGroup = [], nodeMap = [], edgeGroup = [],
             particlePool =
               [\<lparr>alive = True, life = 0.3, velocity = Vector3 1 2 3, p_position = Vector3 0 0 0,
                 p_scale = 1, p_color = 0xffffff, opacity = 0.25, visible = True\<rparr>,
                \<lparr>alive = True, life = 1, velocity = Vector3 1 2 3, p_position = Vector3 0 0 0,
                 p_scale = 1, p_color = 0xffffff, opacity = 1, visible = True\<rparr>],
             textures = \<lparr>labelCanvasCache = [], generated = 0\<rparr>,
             dragging = None, dragOffset = Vector3 0 0 0, elapsedTime = 0\<rparr>"
  define pool' where "pool' = particlePool (animate 0.5 (Vector3 0 30 80) s)"
  have h0: "0 < length (particlePool s)" "alive (particlePool s ! 0)"
           "life (particlePool s ! 0) - 0.5 \<le> 0"
    by (simp_all add: s_def)
  have h1: "1 < length (particlePool s)" "alive (particlePool s ! 1)"
           "0 < life (particlePool s ! 1) - 0.5"
           "life (particlePool s ! 1) = 1"
           "p_position (particlePool s ! 1) = Vector3 0 0 0"
           "velocity (particlePool s ! 1) = Vector3 1 2 3"
    by (simp_all add: s_def)
  note t0 = animate_particle_update[OF h0(1,2), of "0.5" "Vector3 0 30 80" "Vector3 0 0 0" None undefined]
  note t1 = animate_particle_update[OF h1(1,2), of "0.5" "Vector3 0 30 80" "Vector3 0 0 0" None undefined]
  have a: "\<not> alive (pool' ! 0) \<and> \<not> visible (pool' ! 0)"
    using t0 h0(3) unfolding pool'_def by blast
  have b: "alive (pool' ! 1) \<and> life (pool' ! 1) = 1/2 \<and>
      p_position (pool' ! 1) = Vector3 (1/2) 1 (3/2) \<and>
      velocity (pool' ! 1) = Vector3 0.98 1.96 2.94 \<and>
      opacity (pool' ! 1) = 5/12"
    using t1 h1 unfolding pool'_def by simp
  have "0 < length (particlePool s) \<and> alive (particlePool s ! 0) \<and>
      life (particlePool s ! 0) - 0.5 \<le> 0 \<and>
      \<not> alive (pool' ! 0) \<and> \<not> visible (pool' ! 0) \<and>
      1 < length (particlePool s) \<and> alive (particlePool s ! 1) \<and>
      0 < life (particlePool s ! 1) - 0.5 \<and>
      alive (pool' ! 1) \<and> life (pool' ! 1) = 1/2 \<and>
      p_position (pool' ! 1) = Vector3 (1/2) 1 (3/2) \<and>
      velocity (pool' ! 1) = Vector3 0.98 1.96 2.94 \<and>
      opacity (pool' ! 1) = 5/12"
    using h0 h1 a b by blast
  then show ?thesis unfolding Let_def pool'_def s_def .
qed

lemma burst_all_alive:
  "\<forall>p \<in> set ps. alive p \<Longrightarrow> fold (\<lambda>k. spawnParticles origin color (rnd k)) ks ps = ps"
  by (induction ks) (simp_all add: spawnParticles_def scanPool_all_alive)

text \<open>
  Claim C2. In every session reachable from the build through pointer events, reset clicks,
  frames and camera moves, the pool holds exactly \<^verbatim>\<open>PARTICLE_MAX\<close> = 200 particles (none
  is ever added), so at most 200 are alive; and \<^verbatim>\<open>spawnParticles\<close> on a pool without an
  idle slot returns that pool unchanged.
\<close>

theorem pool_capacity:
  assumes "reachable s"
  shows "length (particlePool s) = PARTICLE_MAX \<and> PARTICLE_MAX = 200 \<and>
         length (filter alive (particlePool s)) \<le> 200 \<and>
         ((\<forall>p \<in> set ps. alive p) \<longrightarrow>
            length (filter alive ps) = length ps \<and>
            spawnParticles origin color r ps = ps)"
proof -
  have len: "length (particlePool s) = PARTICLE_MAX"
    using reachable_wf[OF assms] by (simp add: wf_def)
  have "length (filter alive (particlePool s)) \<le> length (particlePool s)"
    by (rule length_filter_le)
  then have cnt: "length (filter alive (particlePool s)) \<le> 200"
    using len by (simp add: PARTICLE_MAX_def)
  have noop: "spawnParticles origin color r ps = ps" if "\<forall>p \<in> set ps. alive p"
    using that by (simp add: spawnParticles_def scanPool_all_alive)
  show ?thesis using len cnt noop by (simp add: PARTICLE_MAX_def)
qed

theorem pool_capacity_witness:
  "case build (\<lambda>_. 0) (\<lambda>_. (0, 0, 0)) [] [] of
     Inl e \<Rightarrow> False
   | Inr s0 \<Rightarrow>
       reachable (snd (handle (Frame (1/60) (Vector3 0 30 80)) s0)) \<and>
       length (particlePool (snd (handle (Frame (1/60) (Vector3 0 30 80)) s0))) = 200 \<and>
       length (filter alive (particlePool (snd (handle (Frame (1/60) (Vector3 0 30 80)) s0)))) \<le> 200 \<and>
       list_all alive (replicate 200 (newParticle\<lparr>alive := True\<rparr>)) \<and>
       spawnParticles (Vector3 0 0 0) (Some 0xffd17a)
           \<lparr>d_life = 1/2, d_scale = 1/2, d_vx = 1/4, d_vy = 1/2, d_vz = 3/4\<rparr>
           (replicate 200 (newParticle\<lparr>alive := True\<rparr>))
         = replicate 200 (newParticle\<lparr>alive := True\<rparr>)"
proof -
  obtain s0 where b: "build (\<lambda>_. 0) (\<lambda>_. (0, 0, 0)) [] [] = Inr s0"
    by (simp add: build_def)
  have r0: "reachable s0" by (rule reachable.built[OF b])
  have r1: "reachable (snd (handle (Frame (1/60) (Vector3 0 30 80)) s0))"
    by (rule reachable.step[OF r0]) simp
  have all: "\<forall>p \<in> set (replicate 200 (newParticle\<lparr>alive := True\<rparr>)). alive p" by simp
  note t = pool_capacity[OF r1, of "replicate 200 (newParticle\<lparr>alive := True\<rparr>)"
      "Vector3 0 0 0" "Some 0xffd17a" "\<lparr>d_life = 1/2, d_scale = 1/2, d_vx = 1/4, d_vy = 1/2, d_vz = 3/4\<rparr>"]
  have la: "list_all alive (replicate 200 (newParticle\<lparr>alive := True\<rparr>))"
    using all by (simp only: list_all_iff)
  from t have "length (particlePool (snd (handle (Frame (1/60) (Vector3 0 30 80)) s0))) = PARTICLE_MAX"
    and "PARTICLE_MAX = 200" by blast+
  then have c1: "length (particlePool (snd (handle (Frame (1/60) (Vector3 0 30 80)) s0))) = 200"
    by (simp only:)
  from t have c2: "length (filter alive (particlePool (snd (handle (Frame (1/60) (Vector3 0 30 80)) s0)))) \<le> 200"
    by blast
  from t all have c3: "spawnParticles (Vector3 0 0 0) (Some 0xffd17a)
           \<lparr>d_life = 1/2, d_scale = 1/2, d_vx = 1/4, d_vy = 1/2, d_vz = 3/4\<rparr>
           (replicate 200 (newParticle\<lparr>alive := True\<rparr>))
         = replicate 200 (newParticle\<lparr>alive := True\<rparr>)"
    by blast
  show ?thesis unfolding b sum.case using r1 c1 c2 la c3 by blast
qed

section \<open>The scene builder\<close>

subsection \<open>The label texture cache\<close>

lemma makeLabelTexture_hit:
  "map_of (labelCanvasCache c) text = Some t \<Longrightarrow> makeLabelTexture measureText text c = (t, c)"
  by (simp add: makeLabelTexture_def)

lemma makeLabelTexture_lookup:
  "makeLabelTexture measureText text c = (t, c') \<Longrightarrow>
   map_of (labelCanvasCache c') text = Some t"
  by (auto simp: makeLabelTexture_def Let_def update_conv' split: option.splits)

lemma makeLabelTexture_keeps:
  "makeLabelTexture measureText text c = (t, c') \<Longrightarrow>
   map_of (labelCanvasCache c) k = Some u \<Longrightarrow> map_of (labelCanvasCache c') k = Some u"
  by (auto simp: makeLabelTexture_def Let_def update_conv' split: option.splits)

lemma makeLabelTexture_cache:
  assumes "makeLabelTexture measureText text c = (t, c')"
    and "distinct (map fst (labelCanvasCache c))" "generated c = length (labelCanvasCache c)"
  shows "distinct (map fst (labelCanvasCache c')) \<and> generated c' = length (labelCanvasCache c') \<and>
         fst ` set (labelCanvasCache c') = insert text (fst ` set (labelCanvasCache c))"
proof (cases "map_of (labelCanvasCache c) text")
  case None
  then have nk: "text \<notin> fst ` set (labelCanvasCache c)" by (simp add: map_of_eq_None_iff)
  from None assms(1) obtain t' where c': "labelCanvasCache c' = AList.update text t' (labelCanvasCache c)"
      "generated c' = Suc (generated c)"
    by (auto simp: makeLabelTexture_def Let_def)
  have "length (map fst (AList.update text t' (labelCanvasCache c))) = Suc (length (labelCanvasCache c))"
    using nk by (simp add: update_keys)
  then have "length (AList.update text t' (labelCanvasCache c)) = Suc (length (labelCanvasCache c))"
    by simp
  moreover have "fst ` set (AList.update text t' (labelCanvasCache c)) = insert text (fst ` set (labelCanvasCache c))"
    by (simp add: dom_update)
  ultimately show ?thesis using c' assms(2,3) by (simp add: distinct_update)
next
  case (Some u)
  then have "text \<in> fst ` set (labelCanvasCache c)"
    by (metis map_of_eq_None_iff option.distinct(1))
  moreover have "c' = c" using Some assms(1) by (simp add: makeLabelTexture_def)
  ultimately show ?thesis using assms(2,3) by auto
qed


lemma createNode_cache:
  assumes cw: "cache_wf ms tc"
    and cn: "createNode measureText j n (ms, nm, tc) = (ms', nm', tc')"
  shows "cache_wf ms' tc'"
proof -
  obtain tex where mk: "makeLabelTexture measureText (n_label n) tc = (tex, tc')"
    using cn by (auto simp: createNode_def Let_def split: prod.splits)
  obtain m where ms': "ms' = ms @ [m]" and m: "m_label m = n_label n" "labelTex m = tex"
    using cn mk by (auto simp: createNode_def Let_def split: prod.splits)
  have d: "distinct (map fst (labelCanvasCache tc))" and g: "generated tc = length (labelCanvasCache tc)"
    and k: "fst ` set (labelCanvasCache tc) = m_label ` set ms"
    and l: "\<And>x. x \<in> set ms \<Longrightarrow> map_of (labelCanvasCache tc) (m_label x) = Some (labelTex x)"
    using cw by (auto simp: cache_wf_def)
  note c = makeLabelTexture_cache[OF mk d g]
  have keys: "fst ` set (labelCanvasCache tc') = m_label ` set ms'"
    using c k ms' m by simp
  have look: "\<forall>x \<in> set ms'. map_of (labelCanvasCache tc') (m_label x) = Some (labelTex x)"
  proof
    fix x assume "x \<in> set ms'"
    then consider "x \<in> set ms" | "x = m" using ms' by auto
    then show "map_of (labelCanvasCache tc') (m_label x) = Some (labelTex x)"
    proof cases
      case 1
      then show ?thesis using makeLabelTexture_keeps[OF mk l] by simp
    next
      case 2
      then show ?thesis using makeLabelTexture_lookup[OF mk] m by simp
    qed
  qed
  show ?thesis using c keys look by (simp add: cache_wf_def)
qed

lemma createNodes_cache:
  "cache_wf ms tc \<Longrightarrow> createNodes measureText jit ns (ms, nm, tc) = (ms', nm', tc') \<Longrightarrow>
   cache_wf ms' tc'"
proof (induction ns arbitrary: ms nm tc)
  case Nil
  then show ?case by simp
next
  case (Cons n ns)
  obtain ms1 nm1 tc1 where st: "createNode measureText (jit (length ms)) n (ms, nm, tc) = (ms1, nm1, tc1)"
    by (cases "createNode measureText (jit (length ms)) n (ms, nm, tc)") auto
  have "cache_wf ms1 tc1" using createNode_cache[OF Cons.prems(1) st] .
  then show ?case using Cons.IH[of ms1 tc1 nm1] Cons.prems(2) st by simp
qed

lemma build_cache:
  assumes "build measureText jit ns es = Inr s"
  shows "cache_wf (nodeGroup s) (textures s)"
proof -
  obtain ms nm tc where cn: "createNodes measureText jit ns ([], [], \<lparr>labelCanvasCache = [], generated = 0\<rparr>) = (ms, nm, tc)"
    by (metis prod_cases3)
  have s: "nodeGroup s = ms" "textures s = tc"
    using assms cn unfolding build_def by (auto split: sum.splits)
  have "cache_wf [] \<lparr>labelCanvasCache = [], generated = 0\<rparr>" by (simp add: cache_wf_def)
  then show ?thesis using createNodes_cache[OF _ cn] s by simp
qed

lemma cache_wf_lab:
  "map lab ms' = map lab ms \<Longrightarrow> cache_wf ms tc \<Longrightarrow> cache_wf ms' tc"
proof -
  assume e: "map lab ms' = map lab ms" and w: "cache_wf ms tc"
  have "lab ` set ms' = lab ` set ms" using e by (metis set_map)
  then have a: "(\<lambda>m. (m_label m, labelTex m)) ` set ms' = (\<lambda>m. (m_label m, labelTex m)) ` set ms"
    by (simp add: lab_def[abs_def])
  have "fst ` ((\<lambda>m. (m_label m, labelTex m)) ` set ms') = fst ` ((\<lambda>m. (m_label m, labelTex m)) ` set ms)"
    using a by simp
  then have b: "m_label ` set ms' = m_label ` set ms" by (simp add: image_image)
  have c: "map_of (labelCanvasCache tc) (m_label x) = Some (labelTex x)" if "x \<in> set ms'" for x
  proof -
    have "(m_label x, labelTex x) \<in> (\<lambda>m. (m_label m, labelTex m)) ` set ms" using that a by blast
    then obtain y where "y \<in> set ms" "m_label y = m_label x" "labelTex y = labelTex x" by auto
    then show ?thesis using w by (auto simp: cache_wf_def)
  qed
  show ?thesis using w b c by (simp add: cache_wf_def)
qed

lemma map_update_same: "g m' = g (ms ! i) \<Longrightarrow> map g (ms[i := m']) = map g ms"
proof (cases "i < length ms")
  case True
  assume "g m' = g (ms ! i)"
  then show ?thesis using True by (simp add: map_update list_update_same_conv)
next
  case False
  then have "length ms \<le> i" by simp
  then show ?thesis by (simp add: list_update_beyond)
qed

lemma map_forEachNode:
  "(\<And>m. g (f m) = g m) \<Longrightarrow> map g (forEachNode f nm ms) = map g ms"
  unfolding forEachNode_def
  by (induction nm arbitrary: ms) (auto simp: map_update_same)

lemma map_nodeMotion: "map lab (nodeMotion t dt ms) = map lab ms"
  by (rule nth_equalityI) (simp_all add: nodeMotion_length nodeMotion_nth lab_def)

lemma onNodeActivate_lab:
  "map lab (nodeGroup (snd (onNodeActivate e rnd s))) = map lab (nodeGroup s) \<and>
   textures (snd (onNodeActivate e rnd s)) = textures s"
  by (cases e) (simp_all add: onNodeActivate_def Let_def map_update_same lab_def)

lemma handle_lab:
  "map lab (nodeGroup (snd (handle ev s))) = map lab (nodeGroup s) \<and>
   textures (snd (handle ev s)) = textures s"
proof (cases ev)
  case (PointerDown intersects rnd)
  show ?thesis
  proof (cases intersects)
    case Nil
    then show ?thesis using PointerDown by (simp add: onPointerDown_def)
  next
    case (Cons h hs)
    obtain ob pt where h: "h = (ob, pt)" by (cases h)
    show ?thesis
    proof (cases ob)
      case (MeshObj i)
      then show ?thesis
        using PointerDown Cons h
          onNodeActivate_lab[of "map_of (nodeMap s) (m_id (nodeGroup s ! i))" rnd
            "s\<lparr>dragging := Some (MeshObj i), dragOffset := sub pt (m_position (nodeGroup s ! i))\<rparr>"]
        by (simp add: onPointerDown_def Let_def)
    next
      case (SpriteObj i)
      then show ?thesis using PointerDown Cons h
        by (simp add: onPointerDown_def Let_def onNodeActivate_None)
    qed
  qed
next
  case (PointerMove origin dir)
  show ?thesis
  proof (cases "dragging s")
    case None
    then show ?thesis using PointerMove by (simp add: onPointerMove_def)
  next
    case (Some ob)
    show ?thesis
    proof (cases ob)
      case (MeshObj i)
      then have d: "dragging s = Some (MeshObj i)" using Some by simp
      show ?thesis using PointerMove
        by (simp add: onPointerMove_Mesh[OF d] Let_def map_update_same lab_def)
    next
      case (SpriteObj i)
      then have d: "dragging s = Some (SpriteObj i)" using Some by simp
      show ?thesis using PointerMove
        by (simp add: onPointerMove_Sprite[OF d] Let_def map_update_same lab_def)
    qed
  qed
next
  case PointerUp
  then show ?thesis by (simp add: onPointerUp_def)
next
  case ResetClick
  have "map lab (forEachNode resetNode (nodeMap s) (nodeGroup s)) = map lab (nodeGroup s)"
    by (rule map_forEachNode) (simp add: resetNode_def lab_def)
  then show ?thesis using ResetClick by (simp add: resetClick_def)
next
  case (Frame dt cam)
  have "map lab (forEachNode (animateNode dt) (nodeMap s) (nodeGroup s)) = map lab (nodeGroup s)"
    by (rule map_forEachNode) (simp add: animateNode_def lab_def Let_def split: option.splits)
  then show ?thesis using Frame by (simp add: animate_def Let_def map_nodeMotion)
next
  case (Orbit cam)
  then show ?thesis by simp
qed

lemma reachable_cache: "reachable s \<Longrightarrow> cache_wf (nodeGroup s) (textures s)"
proof (induction rule: reachable.induct)
  case (built measureText jit ns es s)
  then show ?case by (rule build_cache)
next
  case (step s ev)
  show ?case using cache_wf_lab[OF conjunct1[OF handle_lab] step.IH] handle_lab[of ev s] by simp
qed

lemma createNode_shape:
  assumes "createNode measureText j n (ms, nm, tc) = (ms', nm', tc')"
  shows "map m_id ms' = map m_id ms @ [n_id n] \<and> map m_label ms' = map m_label ms @ [n_label n] \<and>
         map m_category ms' = map m_category ms @ [n_category n] \<and>
         fst ` set nm' = insert (n_id n) (fst ` set nm)"
proof -
  obtain m where ms': "ms' = ms @ [m]" and nm': "nm' = AList.update (n_id n) (length ms) nm"
    and m: "m_id m = n_id n" "m_label m = n_label n" "m_category m = n_category n"
    using assms unfolding createNode_def by (auto simp: Let_def split: prod.splits)
  have "fst ` set nm' = insert (n_id n) (fst ` set nm)"
    unfolding nm' by (simp add: dom_update)
  then show ?thesis using ms' m by simp
qed

lemma createNodes_shape:
  "createNodes measureText jit ns (ms, nm, tc) = (ms', nm', tc') \<Longrightarrow>
   map m_id ms' = map m_id ms @ map n_id ns \<and> map m_label ms' = map m_label ms @ map n_label ns \<and>
   map m_category ms' = map m_category ms @ map n_category ns \<and>
   fst ` set nm' = fst ` set nm \<union> n_id ` set ns"
proof (induction ns arbitrary: ms nm tc)
  case Nil
  then show ?case by simp
next
  case (Cons n ns)
  obtain ms1 nm1 tc1 where st: "createNode measureText (jit (length ms)) n (ms, nm, tc) = (ms1, nm1, tc1)"
    by (cases "createNode measureText (jit (length ms)) n (ms, nm, tc)") auto
  have r: "createNodes measureText jit ns (ms1, nm1, tc1) = (ms', nm', tc')"
    using Cons.prems st by simp
  show ?case using Cons.IH[OF r] createNode_shape[OF st] by auto
qed

lemma build_shape:
  assumes "build measureText jit ns es = Inr s"
  shows "map m_id (nodeGroup s) = map n_id ns \<and> map m_label (nodeGroup s) = map n_label ns \<and>
         map m_category (nodeGroup s) = map n_category ns \<and>
         fst ` set (nodeMap s) = n_id ` set ns \<and>
         map l_a (edgeGroup s) = map fst es \<and> map l_b (edgeGroup s) = map snd es \<and>
         (\<forall>(a, b) \<in> set es. a \<in> n_id ` set ns \<and> b \<in> n_id ` set ns)"
proof -
  obtain ms nm tc where cn: "createNodes measureText jit ns ([], [], \<lparr>labelCanvasCache = [], generated = 0\<rparr>) = (ms, nm, tc)"
    by (metis prod_cases3)
  obtain ls where ce: "createEdges ms nm es [] = Inr ls"
    and s: "nodeGroup s = ms" "nodeMap s = nm" "edgeGroup s = ls"
    using assms cn unfolding build_def by (auto split: sum.splits)
  have e: "map l_a ls = map fst es \<and> map l_b ls = map snd es"
    using createEdges_result[OF ce] by (simp add: case_prod_beta comp_def)
  show ?thesis using createNodes_shape[OF cn] createEdges_result[OF ce] e s by simp
qed

lemma build_total:
  assumes "\<forall>(a, b) \<in> set es. a \<in> n_id ` set ns \<and> b \<in> n_id ` set ns"
  shows "\<exists>s. build measureText jit ns es = Inr s"
proof -
  obtain ms nm tc where cn: "createNodes measureText jit ns ([], [], \<lparr>labelCanvasCache = [], generated = 0\<rparr>) = (ms, nm, tc)"
    by (metis prod_cases3)
  have "fst ` set nm = n_id ` set ns" using createNodes_shape[OF cn] by simp
  then obtain ls where "createEdges ms nm es [] = Inr ls"
    using createEdges_present[of es nm ms "[]"] assms by auto
  then show ?thesis using cn by (simp add: build_def)
qed

text \<open>
  Claim C9. A second call of \<^verbatim>\<open>makeLabelTexture\<close> with the same string returns the texture
  of the first call and leaves the cache and the number of generated textures as the first
  call left them. In every reachable session two meshes with the same label carry the same
  texture, a further call with the label of a mesh returns the texture of that mesh without
  generating one, and the number of textures generated equals the number of different
  labels.
\<close>

theorem makeLabelTexture_cached:
  assumes "reachable s"
  shows "makeLabelTexture measureText text (snd (makeLabelTexture measureText text c)) =
           (fst (makeLabelTexture measureText text c), snd (makeLabelTexture measureText text c)) \<and>
         (\<forall>m1 \<in> set (nodeGroup s). \<forall>m2 \<in> set (nodeGroup s).
            m_label m1 = m_label m2 \<longrightarrow> labelTex m1 = labelTex m2) \<and>
         (\<forall>m \<in> set (nodeGroup s).
            makeLabelTexture measureText (m_label m) (textures s) = (labelTex m, textures s)) \<and>
         generated (textures s) = card (m_label ` set (nodeGroup s))"
proof -
  obtain t c' where mk: "makeLabelTexture measureText text c = (t, c')"
    by (cases "makeLabelTexture measureText text c") auto
  have first: "makeLabelTexture measureText text (snd (makeLabelTexture measureText text c)) =
           (fst (makeLabelTexture measureText text c), snd (makeLabelTexture measureText text c))"
    using makeLabelTexture_hit[OF makeLabelTexture_lookup[OF mk]] mk by simp
  have cw: "cache_wf (nodeGroup s) (textures s)" using assms by (rule reachable_cache)
  have look: "map_of (labelCanvasCache (textures s)) (m_label m) = Some (labelTex m)"
    if "m \<in> set (nodeGroup s)" for m
    using cw that by (simp add: cache_wf_def)
  have share: "labelTex m1 = labelTex m2"
    if "m1 \<in> set (nodeGroup s)" "m2 \<in> set (nodeGroup s)" "m_label m1 = m_label m2" for m1 m2
    using look[OF that(1)] look[OF that(2)] that(3) by simp
  have again: "makeLabelTexture measureText (m_label m) (textures s) = (labelTex m, textures s)"
    if "m \<in> set (nodeGroup s)" for m
    using look[OF that] by (rule makeLabelTexture_hit)
  have "generated (textures s) = length (map fst (labelCanvasCache (textures s)))"
    using cw by (simp add: cache_wf_def)
  also have "\<dots> = card (set (map fst (labelCanvasCache (textures s))))"
    using cw distinct_card[of "map fst (labelCanvasCache (textures s))"] by (simp add: cache_wf_def)
  also have "\<dots> = card (m_label ` set (nodeGroup s))"
    using cw by (simp add: cache_wf_def)
  finally have gen: "generated (textures s) = card (m_label ` set (nodeGroup s))" .
  show ?thesis using first share again gen by blast
qed

theorem makeLabelTexture_cached_witness:
  "case build (\<lambda>_. 100) (\<lambda>_. (0, 0, 0))
      [\<lparr>n_id = ''Sun'', n_label = ''Light source'', n_category = light,
        n_position = Some (Vector3 50 40 (-20))\<rparr>,
       \<lparr>n_id = ''Torch'', n_label = ''Light source'', n_category = light,
        n_position = Some (Vector3 (-50) 18 8)\<rparr>] [] of
     Inl e \<Rightarrow> False
   | Inr s \<Rightarrow>
       reachable s \<and> length (nodeGroup s) = 2 \<and>
       m_label (nodeGroup s ! 0) = m_label (nodeGroup s ! 1) \<and>
       labelTex (nodeGroup s ! 0) = labelTex (nodeGroup s ! 1) \<and>
       makeLabelTexture (\<lambda>_. 100) ''Light source'' (textures s) = (labelTex (nodeGroup s ! 1), textures s) \<and>
       generated (textures s) = 1"
proof -
  let ?ns = "[\<lparr>n_id = ''Sun'', n_label = ''Light source'', n_category = light,
        n_position = Some (Vector3 50 40 (-20))\<rparr>,
       \<lparr>n_id = ''Torch'', n_label = ''Light source'', n_category = light,
        n_position = Some (Vector3 (-50) 18 8)\<rparr>]"
  obtain s where b: "build (\<lambda>_. 100) (\<lambda>_. (0, 0, 0)) ?ns [] = Inr s"
    using build_total[of "[]" ?ns "\<lambda>_. 100" "\<lambda>_. (0, 0, 0)"] by auto
  have labels: "map m_label (nodeGroup s) = [''Light source'', ''Light source'']"
    using build_shape[OF b] by simp
  have len: "length (nodeGroup s) = 2"
    using arg_cong[OF labels, of length] by simp
  have l0: "m_label (nodeGroup s ! 0) = ''Light source''"
    using arg_cong[OF labels, of "\<lambda>xs. xs ! 0"] len by simp
  have l1: "m_label (nodeGroup s ! 1) = ''Light source''"
    using arg_cong[OF labels, of "\<lambda>xs. xs ! 1"] len by simp
  have r: "reachable s" by (rule reachable.built[OF b])
  have m0: "nodeGroup s ! 0 \<in> set (nodeGroup s)" and m1: "nodeGroup s ! 1 \<in> set (nodeGroup s)"
    using len by simp_all
  note t = makeLabelTexture_cached[OF r, of "\<lambda>_. 100" "''Light source''" "textures s"]
  note t2 = t[THEN conjunct2, THEN conjunct1]
  note t3 = t[THEN conjunct2, THEN conjunct2, THEN conjunct1]
  note t4 = t[THEN conjunct2, THEN conjunct2, THEN conjunct2]
  have share: "labelTex (nodeGroup s ! 0) = labelTex (nodeGroup s ! 1)"
    using bspec[OF bspec[OF t2 m0] m1] l0 l1 by simp
  have again: "makeLabelTexture (\<lambda>_. 100) ''Light source'' (textures s) = (labelTex (nodeGroup s ! 1), textures s)"
    using bspec[OF t3 m1] l1 by simp
  have "m_label ` set (nodeGroup s) = set (map m_label (nodeGroup s))" by simp
  also have "\<dots> = {''Light source''}" unfolding labels by simp
  finally have gen: "generated (textures s) = 1" using t4 by simp
  show ?thesis unfolding b sum.case using r len l0 l1 share again gen by simp
qed

section \<open>The handlers\<close>

subsection \<open>Activation\<close>

lemma build_initial:
  assumes "build measureText jit ns es = Inr s"
  shows "cameraPos s = Vector3 0 30 80 \<and> sunLight s = 0.8 \<and> torchLight s = 0 \<and>
         particlePool s = initialPool \<and> dragging s = None"
  using assms unfolding build_def by (auto split: prod.splits sum.splits)

lemma onNodeActivate_id:
  "m_id (nodeGroup (snd (onNodeActivate (Some i) rnd s)) ! j) = m_id (nodeGroup s ! j)"
proof (cases "i < length (nodeGroup s)")
  case True
  then show ?thesis
    by (cases "j = i") (simp_all add: onNodeActivate_def Let_def)
next
  case False
  then have "length (nodeGroup s) \<le> i" by simp
  then show ?thesis by (simp add: onNodeActivate_def Let_def list_update_beyond)
qed

lemma onNodeActivate_sun:
  assumes "m_id (nodeGroup s ! i) = ''Sun''"
  shows "sunLight (snd (onNodeActivate (Some i) rnd s)) = min 2.2 (sunLight s + 0.9)"
  using assms by (simp add: onNodeActivate_def Let_def)

lemma onNodeActivate_torch:
  assumes "m_id (nodeGroup s ! i) = ''Torch''"
  shows "torchLight (snd (onNodeActivate (Some i) rnd s)) = min 3.0 (torchLight s + 1.6)"
  using assms by (simp add: onNodeActivate_def Let_def)

lemma activations_id:
  "m_id (nodeGroup (fold (\<lambda>rnd s. snd (onNodeActivate (Some i) rnd s)) rnds s) ! j) =
   m_id (nodeGroup s ! j)"
  by (induction rnds arbitrary: s) (simp_all add: onNodeActivate_id)

text \<open>
  Claim C3. Activating the node whose id is \<^verbatim>\<open>Sun\<close> sets the intensity of the sun light to
  the minimum of 2.2 and the old intensity plus 0.9: it is at most 2.2 afterwards, it does
  not decrease when it was at most 2.2 before, and after any non-empty sequence of
  activations it is at most 2.2. Activating \<^verbatim>\<open>Torch\<close> does the same to the torch light with
  the increment 1.6 and the maximum 3.0.
\<close>

theorem activation_lights:
  "(m_id (nodeGroup s ! i) = ''Sun'' \<longrightarrow>
      sunLight (snd (onNodeActivate (Some i) rnd s)) = min 2.2 (sunLight s + 0.9) \<and>
      sunLight (snd (onNodeActivate (Some i) rnd s)) \<le> 2.2 \<and>
      (sunLight s \<le> 2.2 \<longrightarrow> sunLight s \<le> sunLight (snd (onNodeActivate (Some i) rnd s))) \<and>
      (rnds \<noteq> [] \<longrightarrow>
         sunLight (fold (\<lambda>rnd s. snd (onNodeActivate (Some i) rnd s)) rnds s) \<le> 2.2)) \<and>
   (m_id (nodeGroup s ! i) = ''Torch'' \<longrightarrow>
      torchLight (snd (onNodeActivate (Some i) rnd s)) = min 3.0 (torchLight s + 1.6) \<and>
      torchLight (snd (onNodeActivate (Some i) rnd s)) \<le> 3.0 \<and>
      (torchLight s \<le> 3.0 \<longrightarrow> torchLight s \<le> torchLight (snd (onNodeActivate (Some i) rnd s))) \<and>
      (rnds \<noteq> [] \<longrightarrow>
         torchLight (fold (\<lambda>rnd s. snd (onNodeActivate (Some i) rnd s)) rnds s) \<le> 3.0))"
proof (intro conjI impI)
  assume sun: "m_id (nodeGroup s ! i) = ''Sun''"
  show eq: "sunLight (snd (onNodeActivate (Some i) rnd s)) = min 2.2 (sunLight s + 0.9)"
    using sun by (rule onNodeActivate_sun)
  show "sunLight (snd (onNodeActivate (Some i) rnd s)) \<le> 2.2"
    unfolding eq by (rule min.cobounded1)
  show "sunLight s \<le> sunLight (snd (onNodeActivate (Some i) rnd s))" if "sunLight s \<le> 2.2"
    unfolding eq using that by (auto simp: min_def)
  show "sunLight (fold (\<lambda>rnd s. snd (onNodeActivate (Some i) rnd s)) rnds s) \<le> 2.2"
    if ne: "rnds \<noteq> []"
  proof -
    obtain rs r where rnds: "rnds = rs @ [r]" using ne by (metis rev_exhaust)
    let ?s = "fold (\<lambda>rnd s. snd (onNodeActivate (Some i) rnd s)) rs s"
    have "m_id (nodeGroup ?s ! i) = ''Sun''" using sun by (simp add: activations_id)
    then have "sunLight (snd (onNodeActivate (Some i) r ?s)) = min 2.2 (sunLight ?s + 0.9)"
      by (rule onNodeActivate_sun)
    moreover have "min 2.2 (sunLight ?s + 0.9) \<le> 2.2" by (rule min.cobounded1)
    ultimately have "sunLight (snd (onNodeActivate (Some i) r ?s)) \<le> 2.2" by (simp only:)
    then show ?thesis unfolding rnds by (simp only: fold_append fold_simps comp_apply)
  qed
next
  assume torch: "m_id (nodeGroup s ! i) = ''Torch''"
  show eq: "torchLight (snd (onNodeActivate (Some i) rnd s)) = min 3.0 (torchLight s + 1.6)"
    using torch by (rule onNodeActivate_torch)
  show "torchLight (snd (onNodeActivate (Some i) rnd s)) \<le> 3.0"
    unfolding eq by (rule min.cobounded1)
  show "torchLight s \<le> torchLight (snd (onNodeActivate (Some i) rnd s))" if "torchLight s \<le> 3.0"
    unfolding eq using that by (auto simp: min_def)
  show "torchLight (fold (\<lambda>rnd s. snd (onNodeActivate (Some i) rnd s)) rnds s) \<le> 3.0"
    if ne: "rnds \<noteq> []"
  proof -
    obtain rs r where rnds: "rnds = rs @ [r]" using ne by (metis rev_exhaust)
    let ?s = "fold (\<lambda>rnd s. snd (onNodeActivate (Some i) rnd s)) rs s"
    have "m_id (nodeGroup ?s ! i) = ''Torch''" using torch by (simp add: activations_id)
    then have "torchLight (snd (onNodeActivate (Some i) r ?s)) = min 3.0 (torchLight ?s + 1.6)"
      by (rule onNodeActivate_torch)
    moreover have "min 3.0 (torchLight ?s + 1.6) \<le> 3.0" by (rule min.cobounded1)
    ultimately have "torchLight (snd (onNodeActivate (Some i) r ?s)) \<le> 3.0" by (simp only:)
    then show ?thesis unfolding rnds by (simp only: fold_append fold_simps comp_apply)
  qed
qed

lemma edges_present: "\<forall>(a, b) \<in> set edges. a \<in> n_id ` set nodes \<and> b \<in> n_id ` set nodes"
  by (simp add: edges_def nodes_def)

lemma nodes_ids:
  "map n_id nodes = [''Material'', ''Sun'', ''Torch'', ''Wrapping'', ''Body'', ''Feeding'',
     ''Responsivity'', ''Thermo'', ''Hydro'', ''Safety'', ''Cleaning'', ''Manufacture'']"
  by (simp add: nodes_def)

theorem activation_lights_witness:
  "case build (\<lambda>_. 100) (\<lambda>_. (0, 0, 0)) nodes edges of
     Inl e \<Rightarrow> False
   | Inr s \<Rightarrow>
       m_id (nodeGroup s ! 1) = ''Sun'' \<and> sunLight s = 4/5 \<and>
       sunLight (snd (onNodeActivate (Some 1)
          (\<lambda>_. \<lparr>d_life = 1/2, d_scale = 1/2, d_vx = 1/4, d_vy = 1/2, d_vz = 3/4\<rparr>) s)) = 17/10 \<and>
       sunLight (fold (\<lambda>rnd s. snd (onNodeActivate (Some 1) rnd s))
          [\<lambda>_. \<lparr>d_life = 1/2, d_scale = 1/2, d_vx = 1/4, d_vy = 1/2, d_vz = 3/4\<rparr>,
           \<lambda>_. \<lparr>d_life = 1/4, d_scale = 1/2, d_vx = 1/4, d_vy = 1/2, d_vz = 3/4\<rparr>,
           \<lambda>_. \<lparr>d_life = 3/4, d_scale = 1/2, d_vx = 1/4, d_vy = 1/2, d_vz = 3/4\<rparr>] s) \<le> 2.2 \<and>
       m_id (nodeGroup s ! 2) = ''Torch'' \<and> torchLight s = 0 \<and>
       torchLight (snd (onNodeActivate (Some 2)
          (\<lambda>_. \<lparr>d_life = 1/2, d_scale = 1/2, d_vx = 1/4, d_vy = 1/2, d_vz = 3/4\<rparr>) s)) = 8/5 \<and>
       torchLight (fold (\<lambda>rnd s. snd (onNodeActivate (Some 2) rnd s))
          [\<lambda>_. \<lparr>d_life = 1/2, d_scale = 1/2, d_vx = 1/4, d_vy = 1/2, d_vz = 3/4\<rparr>,
           \<lambda>_. \<lparr>d_life = 1/4, d_scale = 1/2, d_vx = 1/4, d_vy = 1/2, d_vz = 3/4\<rparr>,
           \<lambda>_. \<lparr>d_life = 3/4, d_scale = 1/2, d_vx = 1/4, d_vy = 1/2, d_vz = 3/4\<rparr>] s) \<le> 3"
proof -
  let ?R = "\<lambda>_::nat. \<lparr>d_life = 1/2, d_scale = 1/2, d_vx = 1/4, d_vy = 1/2, d_vz = 3/4\<rparr>"
  let ?Rs = "[\<lambda>_::nat. \<lparr>d_life = 1/2, d_scale = 1/2, d_vx = 1/4, d_vy = 1/2, d_vz = 3/4\<rparr>,
           \<lambda>_. \<lparr>d_life = 1/4, d_scale = 1/2, d_vx = 1/4, d_vy = 1/2, d_vz = 3/4\<rparr>,
           \<lambda>_. \<lparr>d_life = 3/4, d_scale = 1/2, d_vx = 1/4, d_vy = 1/2, d_vz = 3/4\<rparr>]"
  obtain s where b: "build (\<lambda>_. 100) (\<lambda>_. (0, 0, 0)) nodes edges = Inr s"
    using build_total[OF edges_present] by blast
  have ids: "map m_id (nodeGroup s) = map n_id nodes" using build_shape[OF b] by (rule conjunct1)
  have len: "length (nodeGroup s) = 12" using arg_cong[OF ids, of length] by (simp add: nodes_ids)
  have sun: "m_id (nodeGroup s ! 1) = ''Sun''"
    using arg_cong[OF ids, of "\<lambda>xs. xs ! 1"] len by (simp add: nodes_ids)
  have torch: "m_id (nodeGroup s ! 2) = ''Torch''"
    using arg_cong[OF ids, of "\<lambda>xs. xs ! 2"] len by (simp add: nodes_ids)
  have l0: "sunLight s = 4/5" "torchLight s = 0" using build_initial[OF b] by simp_all
  have ne: "?Rs \<noteq> []" by simp
  note t1 = activation_lights[of s 1 ?R ?Rs, THEN conjunct1, rule_format, OF sun]
  note t2 = activation_lights[of s 2 ?R ?Rs, THEN conjunct2, rule_format, OF torch]
  have a1: "sunLight (snd (onNodeActivate (Some 1) ?R s)) = 17/10"
    using t1[THEN conjunct1] l0 by simp
  have a2: "sunLight (fold (\<lambda>rnd s. snd (onNodeActivate (Some 1) rnd s)) ?Rs s) \<le> 2.2"
    using t1[THEN conjunct2, THEN conjunct2, THEN conjunct2] ne by blast
  have a3: "torchLight (snd (onNodeActivate (Some 2) ?R s)) = 8/5"
    using t2[THEN conjunct1] l0 by simp
  have a4: "torchLight (fold (\<lambda>rnd s. snd (onNodeActivate (Some 2) rnd s)) ?Rs s) \<le> 3"
    using t2[THEN conjunct2, THEN conjunct2, THEN conjunct2] ne by simp
  show ?thesis unfolding b sum.case using sun torch l0 a1 a2 a3 a4 by blast
qed

subsection \<open>Reset\<close>

lemma build_entry:
  assumes b: "build measureText jit ns es = Inr s" and d: "distinct (map n_id ns)"
    and i: "i < length ns"
  shows "i \<in> snd ` set (nodeMap s) \<and> map_of (nodeMap s) (n_id (ns ! i)) = Some i"
proof -
  have nw: "nodes_wf (nodeGroup s) (nodeMap s)" using build_wf[OF b] by (simp add: wf_def)
  have ids: "map m_id (nodeGroup s) = map n_id ns" using build_shape[OF b] by (rule conjunct1)
  have keys: "fst ` set (nodeMap s) = n_id ` set ns" using build_shape[OF b] by simp
  have len: "length (nodeGroup s) = length ns" using arg_cong[OF ids, of length] by simp
  have "n_id (ns ! i) \<in> fst ` set (nodeMap s)" using keys i by simp
  then obtain j where j: "(n_id (ns ! i), j) \<in> set (nodeMap s)" by auto
  then have jl: "j < length (nodeGroup s)" and jid: "m_id (nodeGroup s ! j) = n_id (ns ! i)"
    using nw unfolding nodes_wf_def by auto
  have "m_id (nodeGroup s ! j) = map m_id (nodeGroup s) ! j" using jl by simp
  also have "\<dots> = map n_id ns ! j" by (simp only: ids)
  finally have "map n_id ns ! j = map n_id ns ! i" using jid i jl len by simp
  moreover have "j < length (map n_id ns)" "i < length (map n_id ns)" using i jl len by simp_all
  ultimately have "j = i" using nth_eq_iff_index_eq[OF d] by blast
  then have e: "(n_id (ns ! i), i) \<in> set (nodeMap s)" using j by simp
  have "distinct (map fst (nodeMap s))" using nw by (simp add: nodes_wf_def)
  then have "map_of (nodeMap s) (n_id (ns ! i)) = Some i" using e by simp
  moreover have "i \<in> snd ` set (nodeMap s)" using e by force
  ultimately show ?thesis by simp
qed

lemma nodes_distinct: "distinct (map n_id nodes)"
  by (simp add: nodes_ids)

text \<open>
  Claim C4. In every reachable session a click on the reset button puts the camera at
  (0, 30, 80), the sun light at 0.8 and the torch light at 0.0. It keeps the meshes of
  \<^verbatim>\<open>nodeGroup\<close> and the entries of \<^verbatim>\<open>nodeMap\<close>, and every mesh is afterwards the mesh it was
  with the scale set to its base scale on all three axes, the base scale being the size of
  its category, the emissive intensity set to 0 and the emissive colour set to black.
\<close>

theorem reset_restores:
  assumes "reachable s"
  shows "snd (handle ResetClick s) = resetClick s \<and>
         cameraPos (resetClick s) = Vector3 0 30 80 \<and>
         sunLight (resetClick s) = 0.8 \<and> torchLight (resetClick s) = 0.0 \<and>
         (\<forall>m \<in> set (nodeGroup (resetClick s)).
            m_scale m = Vector3 (baseScale m) (baseScale m) (baseScale m) \<and>
            baseScale m = st_size (styleOf (m_category m)) \<and>
            emissiveIntensity m = 0 \<and> emissive m = 0x000000) \<and>
         length (nodeGroup (resetClick s)) = length (nodeGroup s) \<and>
         nodeMap (resetClick s) = nodeMap s \<and>
         (\<forall>i < length (nodeGroup s).
            nodeGroup (resetClick s) ! i =
              (nodeGroup s ! i)\<lparr>m_scale := Vector3 (baseScale (nodeGroup s ! i))
                                                 (baseScale (nodeGroup s ! i))
                                                 (baseScale (nodeGroup s ! i)),
                                emissiveIntensity := 0, emissive := 0x000000\<rparr> \<and>
            baseScale (nodeGroup s ! i) = st_size (styleOf (m_category (nodeGroup s ! i))))"
proof -
  have nw: "nodes_wf (nodeGroup s) (nodeMap s)" using reachable_wf[OF assms] by (simp add: wf_def)
  have d: "distinct (map snd (nodeMap s))" using nw by (simp add: nodes_wf_def)
  let ?ms = "forEachNode resetNode (nodeMap s) (nodeGroup s)"
  have len: "length ?ms = length (nodeGroup s)" by (rule forEachNode_length)
  have exact: "?ms ! i =
              (nodeGroup s ! i)\<lparr>m_scale := Vector3 (baseScale (nodeGroup s ! i))
                                                 (baseScale (nodeGroup s ! i))
                                                 (baseScale (nodeGroup s ! i)),
                                emissiveIntensity := 0, emissive := 0x000000\<rparr> \<and>
            baseScale (nodeGroup s ! i) = st_size (styleOf (m_category (nodeGroup s ! i)))"
    if i: "i < length (nodeGroup s)" for i
  proof -
    let ?m = "nodeGroup s ! i"
    have bs: "baseScale ?m = st_size (styleOf (m_category ?m))"
      using nw i by (simp add: nodes_wf_def)
    then have nz: "baseScale ?m \<noteq> 0"
      using styleOf_size_pos[of "m_category ?m"] by simp
    have "?ms ! i = ?m\<lparr>m_scale := Vector3 (baseScale ?m) (baseScale ?m) (baseScale ?m),
                          emissiveIntensity := 0, emissive := 0x000000\<rparr>"
    proof (cases "i \<in> snd ` set (nodeMap s)")
      case True
      then have "?ms ! i = resetNode ?m" using forEachNode_nth[OF d i] by simp
      then show ?thesis using nz by (simp add: resetNode_def setScalar_def)
    next
      case False
      then have e: "?ms ! i = ?m" using forEachNode_nth[OF d i] by simp
      have f: "fresh ?m" using nw i False by (simp add: nodes_wf_def)
      have "?m\<lparr>m_scale := m_scale ?m, emissiveIntensity := emissiveIntensity ?m,
                emissive := emissive ?m\<rparr> = ?m"
        by simp
      then show ?thesis unfolding e using f by (simp add: fresh_def setScalar_def)
    qed
    then show ?thesis using bs by simp
  qed
  have node: "m_scale (?ms ! i) = Vector3 (baseScale (?ms ! i)) (baseScale (?ms ! i)) (baseScale (?ms ! i)) \<and>
            baseScale (?ms ! i) = st_size (styleOf (m_category (?ms ! i))) \<and>
            emissiveIntensity (?ms ! i) = 0 \<and> emissive (?ms ! i) = 0x000000"
    if i: "i < length (nodeGroup s)" for i
    using exact[OF i] by simp
  have all: "\<forall>m \<in> set ?ms.
            m_scale m = Vector3 (baseScale m) (baseScale m) (baseScale m) \<and>
            baseScale m = st_size (styleOf (m_category m)) \<and>
            emissiveIntensity m = 0 \<and> emissive m = 0x000000"
  proof
    fix m assume "m \<in> set ?ms"
    then obtain i where "i < length ?ms" "?ms ! i = m" by (auto simp: in_set_conv_nth)
    then show "m_scale m = Vector3 (baseScale m) (baseScale m) (baseScale m) \<and>
            baseScale m = st_size (styleOf (m_category m)) \<and>
            emissiveIntensity m = 0 \<and> emissive m = 0x000000"
      using node[of i] len by simp
  qed
  have ng: "nodeGroup (resetClick s) = ?ms" by (simp add: resetClick_def)
  have rest: "snd (handle ResetClick s) = resetClick s \<and>
         cameraPos (resetClick s) = Vector3 0 30 80 \<and>
         sunLight (resetClick s) = 0.8 \<and> torchLight (resetClick s) = 0.0"
    by (simp add: resetClick_def)
  have nm: "nodeMap (resetClick s) = nodeMap s" by (simp add: resetClick_def)
  have ex: "\<forall>i < length (nodeGroup s).
            ?ms ! i =
              (nodeGroup s ! i)\<lparr>m_scale := Vector3 (baseScale (nodeGroup s ! i))
                                                 (baseScale (nodeGroup s ! i))
                                                 (baseScale (nodeGroup s ! i)),
                                emissiveIntensity := 0, emissive := 0x000000\<rparr> \<and>
            baseScale (nodeGroup s ! i) = st_size (styleOf (m_category (nodeGroup s ! i)))"
    using exact by (intro allI impI)
  show ?thesis unfolding ng
    by (intro conjI rest[THEN conjunct1] rest[THEN conjunct2, THEN conjunct1]
          rest[THEN conjunct2, THEN conjunct2, THEN conjunct1]
          rest[THEN conjunct2, THEN conjunct2, THEN conjunct2] all len nm ex)
qed

theorem reset_restores_witness:
  "case build (\<lambda>_. 100) (\<lambda>_. (0, 0, 0)) nodes edges of
     Inl e \<Rightarrow> False
   | Inr s0 \<Rightarrow>
       (let s = snd (handle (PointerDown [(MeshObj 1, Vector3 50 40 (-18))]
                       (\<lambda>_. \<lparr>d_life = 1/2, d_scale = 1/2, d_vx = 1/4, d_vy = 1/2, d_vz = 3/4\<rparr>)) s0)
        in reachable s \<and> emissiveIntensity (nodeGroup s ! 1) = 9/10 \<and> sunLight s = 17/10 \<and>
           cameraPos (resetClick s) = Vector3 0 30 80 \<and>
           sunLight (resetClick s) = 4/5 \<and> torchLight (resetClick s) = 0 \<and>
           list_all (\<lambda>m. m_scale m = Vector3 (baseScale m) (baseScale m) (baseScale m) \<and>
                         baseScale m = st_size (styleOf (m_category m)) \<and>
                         emissiveIntensity m = 0 \<and> emissive m = 0)
             (nodeGroup (resetClick s)) \<and>
           length (nodeGroup (resetClick s)) = 12 \<and>
           m_id (nodeGroup (resetClick s) ! 1) = ''Sun'' \<and>
           m_scale (nodeGroup (resetClick s) ! 1) = Vector3 (21/10) (21/10) (21/10) \<and>
           emissiveIntensity (nodeGroup (resetClick s) ! 1) = 0 \<and>
           emissive (nodeGroup (resetClick s) ! 1) = 0)"
proof -
  let ?R = "\<lambda>_::nat. \<lparr>d_life = 1/2, d_scale = 1/2, d_vx = 1/4, d_vy = 1/2, d_vz = 3/4\<rparr>"
  let ?ev = "PointerDown [(MeshObj 1, Vector3 50 40 (-18))] ?R"
  obtain s0 where b: "build (\<lambda>_. 100) (\<lambda>_. (0, 0, 0)) nodes edges = Inr s0"
    using build_total[OF edges_present] by blast
  define s where "s = snd (handle ?ev s0)"
  have ids: "map m_id (nodeGroup s0) = map n_id nodes" using build_shape[OF b] by (rule conjunct1)
  have cats: "map m_category (nodeGroup s0) = map n_category nodes"
    using build_shape[OF b, THEN conjunct2, THEN conjunct2] by (rule conjunct1)
  have len: "length (nodeGroup s0) = 12" using arg_cong[OF ids, of length] by (simp add: nodes_ids)
  have sun: "m_id (nodeGroup s0 ! 1) = ''Sun''"
    using arg_cong[OF ids, of "\<lambda>xs. xs ! 1"] len by (simp add: nodes_ids)
  have nl: "1 < length nodes" using arg_cong[OF nodes_ids, of length] by simp
  have key: "n_id (nodes ! 1) = ''Sun''" using arg_cong[OF nodes_ids, of "\<lambda>xs. xs ! 1"] nl by simp
  have ncat: "n_category (nodes ! 1) = light" by (simp add: nodes_def)
  have cat: "m_category (nodeGroup s0 ! 1) = light"
    using arg_cong[OF cats, of "\<lambda>xs. xs ! 1"] len nl ncat by simp
  note e = build_entry[OF b nodes_distinct nl]
  have ent: "1 \<in> snd ` set (nodeMap s0)" using e by (rule conjunct1)
  have look: "map_of (nodeMap s0) ''Sun'' = Some 1" using e key by simp
  have ok: "event_ok s0 ?ev" using ent by (simp add: draws_ok_def list_all_iff)
  have r0: "reachable s0" by (rule reachable.built[OF b])
  have r: "reachable s" unfolding s_def by (rule reachable.step[OF r0 ok])
  have s: "s =
      snd (onNodeActivate (Some 1) ?R
            (s0\<lparr>dragging := Some (MeshObj 1),
                 dragOffset := sub (Vector3 50 40 (-18)) (m_position (nodeGroup s0 ! 1))\<rparr>))"
    unfolding s_def using look sun by (simp add: onPointerDown_def Let_def)
  have em: "emissiveIntensity (nodeGroup s ! 1) = 9/10"
    unfolding s using len by (simp add: onNodeActivate_def Let_def)
  have sl: "sunLight s = 17/10"
    unfolding s using sun build_initial[OF b] by (simp add: onNodeActivate_def Let_def)
  have lens: "length (nodeGroup s) = 12"
    unfolding s using len by (simp add: onNodeActivate_def Let_def)
  have ids1: "m_id (nodeGroup s ! 1) = ''Sun''"
    unfolding s using len sun by (simp add: onNodeActivate_def Let_def)
  have cat1: "m_category (nodeGroup s ! 1) = light"
    unfolding s using len cat by (simp add: onNodeActivate_def Let_def)
  note t = reset_restores[OF r]
  have c: "cameraPos (resetClick s) = Vector3 0 30 80 \<and>
           sunLight (resetClick s) = 4/5 \<and>
           torchLight (resetClick s) = 0"
    using t[THEN conjunct2, THEN conjunct1] t[THEN conjunct2, THEN conjunct2, THEN conjunct1]
      t[THEN conjunct2, THEN conjunct2, THEN conjunct2, THEN conjunct1] by simp
  have l: "list_all (\<lambda>m. m_scale m = Vector3 (baseScale m) (baseScale m) (baseScale m) \<and>
                         baseScale m = st_size (styleOf (m_category m)) \<and>
                         emissiveIntensity m = 0 \<and> emissive m = 0)
             (nodeGroup (resetClick s))"
    unfolding list_all_iff
    using t[THEN conjunct2, THEN conjunct2, THEN conjunct2, THEN conjunct2, THEN conjunct1] by simp
  note t5 = t[THEN conjunct2, THEN conjunct2, THEN conjunct2, THEN conjunct2, THEN conjunct2]
  have l12: "length (nodeGroup (resetClick s)) = 12" using t5[THEN conjunct1] lens by simp
  have i1: "1 < length (nodeGroup s)" using lens by simp
  note x = t5[THEN conjunct2, THEN conjunct2, rule_format, OF i1]
  have bs: "baseScale (nodeGroup s ! 1) = 21/10"
    using x[THEN conjunct2] cat1 by (simp add: styleOf_def)
  have after: "m_id (nodeGroup (resetClick s) ! 1) = ''Sun'' \<and>
           m_scale (nodeGroup (resetClick s) ! 1) = Vector3 (21/10) (21/10) (21/10) \<and>
           emissiveIntensity (nodeGroup (resetClick s) ! 1) = 0 \<and>
           emissive (nodeGroup (resetClick s) ! 1) = 0"
    unfolding x[THEN conjunct1] using ids1 bs by simp
  show ?thesis unfolding b sum.case Let_def
    using r em sl c l l12 after unfolding s_def by blast
qed

subsection \<open>Dragging\<close>

lemma updateEdges_defined:
  assumes "\<forall>l \<in> set ls. pos (l_a l) \<noteq> None \<and> pos (l_b l) \<noteq> None"
  shows "fst (updateEdges pos d ls) = None \<and>
         (\<forall>l \<in> set (snd (updateEdges pos d ls)).
            Some (l_a l) = d \<or> Some (l_b l) = d \<longrightarrow>
            (\<exists>pa pb. pos (l_a l) = Some pa \<and> pos (l_b l) = Some pb \<and>
                     geometry l = setFromPoints pa pb))"
  using assms
proof (induction ls)
  case Nil
  then show ?case by simp
next
  case (Cons l ls)
  obtain aPos bPos where p: "pos (l_a l) = Some aPos" "pos (l_b l) = Some bPos"
    using Cons.prems by auto
  obtain e ls' where r: "updateEdges pos d ls = (e, ls')" by (cases "updateEdges pos d ls") auto
  have ih: "e = None \<and> (\<forall>l \<in> set ls'.
            Some (l_a l) = d \<or> Some (l_b l) = d \<longrightarrow>
            (\<exists>pa pb. pos (l_a l) = Some pa \<and> pos (l_b l) = Some pb \<and>
                     geometry l = setFromPoints pa pb))"
    using Cons.IH Cons.prems r by simp
  show ?case
  proof (cases "Some (l_a l) = d \<or> Some (l_b l) = d")
    case True
    then have "updateEdges pos d (l # ls) = (e, l\<lparr>geometry := setFromPoints aPos bPos\<rparr> # ls')"
      using p r by simp
    then show ?thesis using ih p by simp
  next
    case False
    then have "updateEdges pos d (l # ls) = (e, l # ls')" using r by simp
    then show ?thesis using ih False by simp
  qed
qed

lemma updateEdges_no_id: "updateEdges pos None ls = (None, ls)"
  by (induction ls) simp_all

lemma nodePosition_edgeGroup: "nodePosition (s\<lparr>edgeGroup := ls\<rparr>) = nodePosition s"
  by (simp add: nodePosition_def fun_eq_iff)

text \<open>The move of a dragged mesh in a well-formed session.\<close>

lemma drag_mesh_lines:
  assumes w: "wf s" and d: "dragging s = Some (MeshObj i)"
  shows "fst (onPointerMove origin dir s) = None \<and>
         nodeGroup (snd (onPointerMove origin dir s)) =
           (nodeGroup s)[i := (nodeGroup s ! i)\<lparr>m_position :=
              sub (add (multiplyScalar dir (distanceTo (m_position (nodeGroup s ! i)) (cameraPos s)))
                       origin) (dragOffset s)\<rparr>] \<and>
         m_position (nodeGroup (snd (onPointerMove origin dir s)) ! i) =
           sub (add (multiplyScalar dir (distanceTo (m_position (nodeGroup s ! i)) (cameraPos s)))
                    origin) (dragOffset s) \<and>
         nodePosition (snd (onPointerMove origin dir s)) (m_id (nodeGroup s ! i)) =
           Some (m_position (nodeGroup (snd (onPointerMove origin dir s)) ! i)) \<and>
         map l_a (edgeGroup (snd (onPointerMove origin dir s))) = map l_a (edgeGroup s) \<and>
         map l_b (edgeGroup (snd (onPointerMove origin dir s))) = map l_b (edgeGroup s) \<and>
         (\<forall>l \<in> set (edgeGroup (snd (onPointerMove origin dir s))).
            l_a l = m_id (nodeGroup s ! i) \<or> l_b l = m_id (nodeGroup s ! i) \<longrightarrow>
            (\<exists>pa pb. nodePosition (snd (onPointerMove origin dir s)) (l_a l) = Some pa \<and>
                     nodePosition (snd (onPointerMove origin dir s)) (l_b l) = Some pb \<and>
                     geometry l = setFromPoints pa pb))"
proof -
  have nw: "nodes_wf (nodeGroup s) (nodeMap s)" using w by (simp add: wf_def)
  have ent: "i \<in> snd ` set (nodeMap s)" using w d by (simp add: wf_def)
  have il: "i < length (nodeGroup s)" using entry_in_range[OF nw ent] .
  have look: "map_of (nodeMap s) (m_id (nodeGroup s ! i)) = Some i" using map_of_entry[OF nw ent] .
  define p where "p = sub (add (multiplyScalar dir (distanceTo (m_position (nodeGroup s ! i)) (cameraPos s)))
                    origin) (dragOffset s)"
  define s1 where "s1 = s\<lparr>nodeGroup := (nodeGroup s)[i := (nodeGroup s ! i)\<lparr>m_position := p\<rparr>]\<rparr>"
  define res where "res = updateEdges (nodePosition s1) (Some (m_id (nodeGroup s ! i))) (edgeGroup s)"
  have pm: "onPointerMove origin dir s = (fst res, s1\<lparr>edgeGroup := snd res\<rparr>)"
    unfolding onPointerMove_Mesh[OF d] Let_def res_def s1_def p_def by simp
  have def: "\<forall>l \<in> set (edgeGroup s). nodePosition s1 (l_a l) \<noteq> None \<and> nodePosition s1 (l_b l) \<noteq> None"
  proof
    fix l assume "l \<in> set (edgeGroup s)"
    then have "l_a l \<in> fst ` set (nodeMap s)" "l_b l \<in> fst ` set (nodeMap s)"
      using w by (simp_all add: wf_def)
    then have "map_of (nodeMap s) (l_a l) \<noteq> None" "map_of (nodeMap s) (l_b l) \<noteq> None"
      by (simp_all add: map_of_eq_None_iff)
    then show "nodePosition s1 (l_a l) \<noteq> None \<and> nodePosition s1 (l_b l) \<noteq> None"
      by (simp add: nodePosition_def s1_def)
  qed
  note ue = updateEdges_defined[OF def, of "Some (m_id (nodeGroup s ! i))", folded res_def]
  have np: "nodePosition (snd (onPointerMove origin dir s)) = nodePosition s1"
    unfolding pm by (simp add: nodePosition_edgeGroup)
  have c1: "fst (onPointerMove origin dir s) = None" unfolding pm using ue by simp
  have c0: "nodeGroup (snd (onPointerMove origin dir s)) =
              (nodeGroup s)[i := (nodeGroup s ! i)\<lparr>m_position := p\<rparr>]"
    unfolding pm by (simp add: s1_def)
  have c2: "m_position (nodeGroup (snd (onPointerMove origin dir s)) ! i) = p"
    unfolding pm using il by (simp add: s1_def)
  have c3: "nodePosition (snd (onPointerMove origin dir s)) (m_id (nodeGroup s ! i)) = Some p"
    unfolding np using look il by (simp add: nodePosition_def s1_def)
  obtain e ls where res: "res = (e, ls)" by (cases res) auto
  have top: "map l_a ls = map l_a (edgeGroup s) \<and> map l_b ls = map l_b (edgeGroup s)"
    using updateEdges_topology[of "nodePosition s1" "Some (m_id (nodeGroup s ! i))" "edgeGroup s" e ls]
      res unfolding res_def by simp
  have c4: "map l_a (edgeGroup (snd (onPointerMove origin dir s))) = map l_a (edgeGroup s) \<and>
            map l_b (edgeGroup (snd (onPointerMove origin dir s))) = map l_b (edgeGroup s)"
    unfolding pm using top res by simp
  have c5: "\<forall>l \<in> set (edgeGroup (snd (onPointerMove origin dir s))).
            l_a l = m_id (nodeGroup s ! i) \<or> l_b l = m_id (nodeGroup s ! i) \<longrightarrow>
            (\<exists>pa pb. nodePosition (snd (onPointerMove origin dir s)) (l_a l) = Some pa \<and>
                     nodePosition (snd (onPointerMove origin dir s)) (l_b l) = Some pb \<and>
                     geometry l = setFromPoints pa pb)"
    unfolding np using ue unfolding pm by simp
  show ?thesis using c0 c1 c2 c3 c4 c5 unfolding p_def by simp
qed

lemma createNodes_position:
  "createNodes measureText jit ns (ms, nm, tc) = (ms', nm', tc') \<Longrightarrow>
   \<exists>new. ms' = ms @ new \<and> length new = length ns \<and>
         (\<forall>i < length ns. \<forall>p. n_position (ns ! i) = Some p \<longrightarrow> m_position (new ! i) = p)"
proof (induction ns arbitrary: ms nm tc)
  case Nil
  then show ?case by simp
next
  case (Cons n ns)
  obtain ms1 nm1 tc1 where st: "createNode measureText (jit (length ms)) n (ms, nm, tc) = (ms1, nm1, tc1)"
    by (cases "createNode measureText (jit (length ms)) n (ms, nm, tc)") auto
  obtain m where ms1: "ms1 = ms @ [m]" and m: "\<forall>p. n_position n = Some p \<longrightarrow> m_position m = p"
    using st unfolding createNode_def by (auto simp: Let_def split: prod.splits)
  have r: "createNodes measureText jit ns (ms1, nm1, tc1) = (ms', nm', tc')"
    using Cons.prems st by simp
  from Cons.IH[OF r] obtain new where new: "ms' = ms1 @ new" "length new = length ns"
      "\<forall>i < length ns. \<forall>p. n_position (ns ! i) = Some p \<longrightarrow> m_position (new ! i) = p"
    by blast
  have "\<forall>i < length (n # ns). \<forall>p. n_position ((n # ns) ! i) = Some p \<longrightarrow> m_position ((m # new) ! i) = p"
  proof (intro allI impI)
    fix i p assume i: "i < length (n # ns)" and p: "n_position ((n # ns) ! i) = Some p"
    show "m_position ((m # new) ! i) = p"
    proof (cases i)
      case 0
      then show ?thesis using m p by simp
    next
      case (Suc k)
      then show ?thesis using new(3) i p by simp
    qed
  qed
  moreover have "ms' = ms @ (m # new)" using new(1) ms1 by simp
  moreover have "length (m # new) = length (n # ns)" using new(2) by simp
  ultimately show ?case by blast
qed

lemma build_position:
  assumes b: "build measureText jit ns es = Inr s" and i: "i < length ns"
    and p: "n_position (ns ! i) = Some p"
  shows "m_position (nodeGroup s ! i) = p"
proof -
  obtain ms nm tc where cn: "createNodes measureText jit ns ([], [], \<lparr>labelCanvasCache = [], generated = 0\<rparr>) = (ms, nm, tc)"
    by (metis prod_cases3)
  have s: "nodeGroup s = ms"
    using b cn unfolding build_def by (auto split: sum.splits)
  from createNodes_position[OF cn] show ?thesis using s i p by auto
qed

lemma build_edge_geometry:
  assumes b: "build measureText jit ns es = Inr s" and k: "k < length es"
  shows "l_a (edgeGroup s ! k) = fst (es ! k) \<and> l_b (edgeGroup s ! k) = snd (es ! k) \<and>
         (\<exists>pa pb. nodePosition s (fst (es ! k)) = Some pa \<and>
                  nodePosition s (snd (es ! k)) = Some pb \<and>
                  geometry (edgeGroup s ! k) = setFromPoints pa pb)"
proof -
  obtain ms nm tc where cn: "createNodes measureText jit ns ([], [], \<lparr>labelCanvasCache = [], generated = 0\<rparr>) = (ms, nm, tc)"
    by (metis prod_cases3)
  obtain ls where ce: "createEdges ms nm es [] = Inr ls"
    and s: "nodeGroup s = ms" "nodeMap s = nm" "edgeGroup s = ls"
    using b cn unfolding build_def by (auto split: sum.splits)
  note res = createEdges_result[OF ce]
  have mem: "es ! k \<in> set es" using k by simp
  obtain a c where e: "es ! k = (a, c)" by (cases "es ! k")
  have keys: "a \<in> fst ` set nm" "c \<in> fst ` set nm" using res mem e by auto
  then obtain ia ic where look: "map_of nm a = Some ia" "map_of nm c = Some ic"
    by (metis map_of_eq_None_iff not_None_eq)
  have "ls ! k = \<lparr>l_a = a, l_b = c,
          geometry = setFromPoints (m_position (ms ! the (map_of nm a)))
                                   (m_position (ms ! the (map_of nm c)))\<rparr>"
    using res k e by simp
  then show ?thesis using s e look by (simp add: nodePosition_def)
qed

lemma edges_pairs:
  "edges ! 0 = (''Material'', ''Sun'') \<and> length edges = 12"
  by (simp add: edges_def)

lemma nodes_positions:
  "n_position (nodes ! 0) = Some (Vector3 0 0 0) \<and> n_position (nodes ! 1) = Some (Vector3 50 40 (-20))"
  by (simp add: nodes_def)

text \<open>
  Claim C5, as amended. In a reachable session in which the mesh of a node is being
  dragged, \<^verbatim>\<open>onPointerMove\<close> returns without a throw, changes of the meshes only the
  position of the dragged one, which becomes the projected point minus the drag offset,
  keeps the ids of every line, and leaves in the geometry of every line one of whose ids is
  that of the dragged node what \<^verbatim>\<open>setFromPoints\<close> stores of the positions that the meshes of
  its two ids have after the move: their coordinates rounded to 32-bit floats.
\<close>

theorem drag_updates_edges:
  assumes r: "reachable s" and d: "dragging s = Some (MeshObj i)"
  shows "fst (onPointerMove origin dir s) = None \<and>
         nodeGroup (snd (onPointerMove origin dir s)) =
           (nodeGroup s)[i := (nodeGroup s ! i)\<lparr>m_position :=
              sub (add (multiplyScalar dir (distanceTo (m_position (nodeGroup s ! i)) (cameraPos s)))
                       origin) (dragOffset s)\<rparr>] \<and>
         m_position (nodeGroup (snd (onPointerMove origin dir s)) ! i) =
           sub (add (multiplyScalar dir (distanceTo (m_position (nodeGroup s ! i)) (cameraPos s)))
                    origin) (dragOffset s) \<and>
         nodePosition (snd (onPointerMove origin dir s)) (m_id (nodeGroup s ! i)) =
           Some (m_position (nodeGroup (snd (onPointerMove origin dir s)) ! i)) \<and>
         map l_a (edgeGroup (snd (onPointerMove origin dir s))) = map l_a (edgeGroup s) \<and>
         map l_b (edgeGroup (snd (onPointerMove origin dir s))) = map l_b (edgeGroup s) \<and>
         (\<forall>l \<in> set (edgeGroup (snd (onPointerMove origin dir s))).
            l_a l = m_id (nodeGroup s ! i) \<or> l_b l = m_id (nodeGroup s ! i) \<longrightarrow>
            (\<exists>pa pb. nodePosition (snd (onPointerMove origin dir s)) (l_a l) = Some pa \<and>
                     nodePosition (snd (onPointerMove origin dir s)) (l_b l) = Some pb \<and>
                     geometry l = setFromPoints pa pb))"
proof -
  have w: "wf s" using r by (rule reachable_wf)
  show ?thesis using w d by (rule drag_mesh_lines)
qed

lemma build_clock:
  assumes "build measureText jit ns es = Inr s"
  shows "elapsedTime s = 0"
  using assms unfolding build_def by (auto split: prod.splits sum.splits)

lemma repo_scene:
  assumes b: "build measureText jit nodes edges = Inr s0"
  shows "length (nodeGroup s0) = 12" and "m_id (nodeGroup s0 ! 0) = ''Material''"
    and "0 \<in> snd ` set (nodeMap s0)"
    and "map_of (nodeMap s0) ''Material'' = Some 0" and "map_of (nodeMap s0) ''Sun'' = Some 1"
    and "m_position (nodeGroup s0 ! 0) = Vector3 0 0 0"
    and "m_position (nodeGroup s0 ! 1) = Vector3 50 40 (-20)"
    and "length (edgeGroup s0) = 12"
    and "l_a (edgeGroup s0 ! 0) = ''Material''" and "l_b (edgeGroup s0 ! 0) = ''Sun''"
    and "geometry (edgeGroup s0 ! 0) = setFromPoints (Vector3 0 0 0) (Vector3 50 40 (-20))"
proof -
  have ids: "map m_id (nodeGroup s0) = map n_id nodes" using build_shape[OF b] by (rule conjunct1)
  show len: "length (nodeGroup s0) = 12" using arg_cong[OF ids, of length] by (simp add: nodes_ids)
  show "m_id (nodeGroup s0 ! 0) = ''Material''"
    using arg_cong[OF ids, of "\<lambda>xs. xs ! 0"] len by (simp add: nodes_ids)
  have nl: "0 < length nodes" "1 < length nodes" using arg_cong[OF nodes_ids, of length] by simp_all
  have key: "n_id (nodes ! 0) = ''Material''" "n_id (nodes ! 1) = ''Sun''"
    using arg_cong[OF nodes_ids, of "\<lambda>xs. xs ! 0"] arg_cong[OF nodes_ids, of "\<lambda>xs. xs ! 1"] nl
    by simp_all
  show "0 \<in> snd ` set (nodeMap s0)"
    using build_entry[OF b nodes_distinct nl(1)] by (rule conjunct1)
  show look0: "map_of (nodeMap s0) ''Material'' = Some 0"
    using build_entry[OF b nodes_distinct nl(1)] key by simp
  show look1: "map_of (nodeMap s0) ''Sun'' = Some 1"
    using build_entry[OF b nodes_distinct nl(2)] key by simp
  show pos0: "m_position (nodeGroup s0 ! 0) = Vector3 0 0 0"
    using build_position[OF b nl(1)] nodes_positions by simp
  show pos1: "m_position (nodeGroup s0 ! 1) = Vector3 50 40 (-20)"
    using build_position[OF b nl(2)] nodes_positions by simp
  show "length (edgeGroup s0) = 12"
    using arg_cong[OF build_shape[OF b, THEN conjunct2, THEN conjunct2, THEN conjunct2, THEN conjunct2, THEN conjunct1], of length]
      edges_pairs by simp
  have k: "0 < length edges" using edges_pairs by simp
  note g = build_edge_geometry[OF b k]
  show "l_a (edgeGroup s0 ! 0) = ''Material''" using g edges_pairs by simp
  show "l_b (edgeGroup s0 ! 0) = ''Sun''" using g edges_pairs by simp
  from g obtain pa pb where p: "nodePosition s0 (fst (edges ! 0)) = Some pa"
      "nodePosition s0 (snd (edges ! 0)) = Some pb"
      "geometry (edgeGroup s0 ! 0) = setFromPoints pa pb"
    by blast
  have "pa = Vector3 0 0 0" using p(1) edges_pairs look0 pos0 by (simp add: nodePosition_def)
  moreover have "pb = Vector3 50 40 (-20)"
    using p(2) edges_pairs look1 pos1 by (simp add: nodePosition_def)
  ultimately show "geometry (edgeGroup s0 ! 0) = setFromPoints (Vector3 0 0 0) (Vector3 50 40 (-20))"
    using p(3) by simp
qed

text \<open>
  The repository's scene with the camera at (0, 0, 10) and the mesh of the node Material
  grabbed at (0, 0, 2.4).
\<close>

lemma mesh_drag_state:
  fixes s0 :: session
  defines "s \<equiv> snd (handle (PointerDown [(MeshObj 0, Vector3 0 0 (12/5))]
                       (\<lambda>_. \<lparr>d_life = 1/2, d_scale = 1/2, d_vx = 1/4, d_vy = 1/2, d_vz = 3/4\<rparr>))
                      (snd (handle (Orbit (Vector3 0 0 10)) s0)))"
  assumes b: "build measureText jit nodes edges = Inr s0"
  shows "reachable s" and "dragging s = Some (MeshObj 0)"
    and "dragOffset s = Vector3 0 0 (12/5)" and "cameraPos s = Vector3 0 0 10"
    and "nodeMap s = nodeMap s0" and "edgeGroup s = edgeGroup s0"
    and "length (nodeGroup s) = 12"
    and "m_position (nodeGroup s ! 0) = Vector3 0 0 0"
    and "m_position (nodeGroup s ! 1) = Vector3 50 40 (-20)"
    and "m_id (nodeGroup s ! 0) = ''Material''"
proof -
  let ?R = "\<lambda>_::nat. \<lparr>d_life = 1/2, d_scale = 1/2, d_vx = 1/4, d_vy = 1/2, d_vz = 3/4\<rparr>"
  let ?ev = "PointerDown [(MeshObj 0, Vector3 0 0 (12/5))] ?R"
  note sc = repo_scene[OF b]
  define s1 where "s1 = snd (handle (Orbit (Vector3 0 0 10)) s0)"
  have r0: "reachable s0" by (rule reachable.built[OF b])
  have r1: "reachable s1" unfolding s1_def by (rule reachable.step[OF r0]) simp
  have s1: "s1 = s0\<lparr>cameraPos := Vector3 0 0 10\<rparr>" by (simp add: s1_def)
  have ok: "event_ok s1 ?ev" using sc(3) by (simp add: s1 draws_ok_def list_all_iff)
  have ss: "s = snd (handle ?ev s1)" by (simp add: s_def s1_def)
  show "reachable s" unfolding ss by (rule reachable.step[OF r1 ok])
  have s: "s = snd (onNodeActivate (Some 0) ?R
            (s1\<lparr>dragging := Some (MeshObj 0),
                 dragOffset := sub (Vector3 0 0 (12/5)) (m_position (nodeGroup s1 ! 0))\<rparr>))"
    unfolding ss using sc(4) sc(2) by (simp add: onPointerDown_def Let_def s1)
  show "dragging s = Some (MeshObj 0)" unfolding s by (simp add: onNodeActivate_def Let_def)
  show "dragOffset s = Vector3 0 0 (12/5)"
    unfolding s using sc(6) by (simp add: onNodeActivate_def Let_def s1 sub_def)
  show "cameraPos s = Vector3 0 0 10" unfolding s by (simp add: onNodeActivate_def Let_def s1)
  show "nodeMap s = nodeMap s0" unfolding s by (simp add: onNodeActivate_def Let_def s1)
  show "edgeGroup s = edgeGroup s0" unfolding s by (simp add: onNodeActivate_def Let_def s1)
  show "length (nodeGroup s) = 12"
    unfolding s using sc(1) by (simp add: onNodeActivate_def Let_def s1)
  show "m_position (nodeGroup s ! 0) = Vector3 0 0 0"
    unfolding s using sc(6) sc(1) by (simp add: onNodeActivate_def Let_def s1)
  show "m_position (nodeGroup s ! 1) = Vector3 50 40 (-20)"
    unfolding s using sc(7) sc(1) by (simp add: onNodeActivate_def Let_def s1)
  show "m_id (nodeGroup s ! 0) = ''Material''"
    unfolding s using sc(2) sc(1) by (simp add: onNodeActivate_def Let_def s1)
qed

lemma mesh_drag_result:
  fixes s0 :: session
  defines "s \<equiv> snd (handle (PointerDown [(MeshObj 0, Vector3 0 0 (12/5))]
                       (\<lambda>_. \<lparr>d_life = 1/2, d_scale = 1/2, d_vx = 1/4, d_vy = 1/2, d_vz = 3/4\<rparr>))
                      (snd (handle (Orbit (Vector3 0 0 10)) s0)))"
  defines "res \<equiv> onPointerMove (Vector3 0 0 10) (Vector3 (3/5) 0 (-4/5)) s"
  assumes b: "build measureText jit nodes edges = Inr s0"
    and T: "fst res = None \<and>
         nodeGroup (snd res) =
           (nodeGroup s)[0 := (nodeGroup s ! 0)\<lparr>m_position :=
              sub (add (multiplyScalar (Vector3 (3/5) 0 (-4/5))
                          (distanceTo (m_position (nodeGroup s ! 0)) (cameraPos s)))
                       (Vector3 0 0 10)) (dragOffset s)\<rparr>] \<and>
         m_position (nodeGroup (snd res) ! 0) =
           sub (add (multiplyScalar (Vector3 (3/5) 0 (-4/5))
                       (distanceTo (m_position (nodeGroup s ! 0)) (cameraPos s)))
                    (Vector3 0 0 10)) (dragOffset s) \<and>
         nodePosition (snd res) (m_id (nodeGroup s ! 0)) =
           Some (m_position (nodeGroup (snd res) ! 0)) \<and>
         map l_a (edgeGroup (snd res)) = map l_a (edgeGroup s) \<and>
         map l_b (edgeGroup (snd res)) = map l_b (edgeGroup s) \<and>
         (\<forall>l \<in> set (edgeGroup (snd res)).
            l_a l = m_id (nodeGroup s ! 0) \<or> l_b l = m_id (nodeGroup s ! 0) \<longrightarrow>
            (\<exists>pa pb. nodePosition (snd res) (l_a l) = Some pa \<and>
                     nodePosition (snd res) (l_b l) = Some pb \<and>
                     geometry l = setFromPoints pa pb))"
  shows "fst res = None"
    and "m_position (nodeGroup (snd res) ! 0) = Vector3 6 0 (-2/5)"
    and "l_a (edgeGroup (snd res) ! 0) = ''Material''"
    and "l_b (edgeGroup (snd res) ! 0) = ''Sun''"
    and "geometry (edgeGroup (snd res) ! 0) = setFromPoints (Vector3 6 0 (-2/5)) (Vector3 50 40 (-20))"
proof -
  note sc = repo_scene[OF b]
  note st = mesh_drag_state[OF b, folded s_def]
  have sq: "sqrt 100 = 10" using real_sqrt_abs2[of 10] by simp
  have dist: "distanceTo (Vector3 0 0 0) (Vector3 0 0 10) = 10"
    by (simp add: distanceTo_def sq)
  show "fst res = None" using T by (rule conjunct1)
  show c2: "m_position (nodeGroup (snd res) ! 0) = Vector3 6 0 (-2/5)"
    using T[THEN conjunct2, THEN conjunct2, THEN conjunct1] st(8) st(4) st(3) dist
    by (simp add: sub_def add_def multiplyScalar_def)
  have c3: "nodePosition (snd res) ''Material'' = Some (Vector3 6 0 (-2/5))"
    using T[THEN conjunct2, THEN conjunct2, THEN conjunct2, THEN conjunct1] st(10) c2 by simp
  have la: "map l_a (edgeGroup (snd res)) = map l_a (edgeGroup s0)"
    using T[THEN conjunct2, THEN conjunct2, THEN conjunct2, THEN conjunct2, THEN conjunct1] st(6)
    by simp
  have lb: "map l_b (edgeGroup (snd res)) = map l_b (edgeGroup s0)"
    using T[THEN conjunct2, THEN conjunct2, THEN conjunct2, THEN conjunct2, THEN conjunct2, THEN conjunct1]
      st(6) by simp
  have el: "length (edgeGroup (snd res)) = 12" using arg_cong[OF la, of length] sc(8) by simp
  show a0: "l_a (edgeGroup (snd res) ! 0) = ''Material''"
    using arg_cong[OF la, of "\<lambda>xs. xs ! 0"] el sc(8) sc(9) by simp
  show b0: "l_b (edgeGroup (snd res) ! 0) = ''Sun''"
    using arg_cong[OF lb, of "\<lambda>xs. xs ! 0"] el sc(8) sc(10) by simp
  have mem: "edgeGroup (snd res) ! 0 \<in> set (edgeGroup (snd res))" using el by simp
  note u = bspec[OF T[THEN conjunct2, THEN conjunct2, THEN conjunct2, THEN conjunct2,
              THEN conjunct2, THEN conjunct2] mem]
  have "\<exists>pa pb. nodePosition (snd res) ''Material'' = Some pa \<and>
                nodePosition (snd res) ''Sun'' = Some pb \<and>
                geometry (edgeGroup (snd res) ! 0) = setFromPoints pa pb"
    using u a0 b0 st(10) by simp
  then obtain pa pb where g: "nodePosition (snd res) ''Material'' = Some pa"
      "nodePosition (snd res) ''Sun'' = Some pb"
      "geometry (edgeGroup (snd res) ! 0) = setFromPoints pa pb"
    by blast
  have ng: "nodeGroup (snd res) ! 1 = nodeGroup s ! 1"
    using arg_cong[OF T[THEN conjunct2, THEN conjunct1], of "\<lambda>xs. xs ! 1"] st(7) by simp
  have nm: "nodeMap (snd res) = nodeMap s"
    unfolding res_def onPointerMove_Mesh[OF st(2)] Let_def by simp
  have c4: "nodePosition (snd res) ''Sun'' = Some (Vector3 50 40 (-20))"
    unfolding nodePosition_def using nm st(5) sc(5) ng st(9) by simp
  have "pa = Vector3 6 0 (-2/5)" using g(1) c3 by simp
  moreover have "pb = Vector3 50 40 (-20)" using g(2) c4 by simp
  ultimately show "geometry (edgeGroup (snd res) ! 0) =
      setFromPoints (Vector3 6 0 (-2/5)) (Vector3 50 40 (-20))"
    using g(3) by simp
qed

theorem drag_updates_edges_witness:
  "case build (\<lambda>_. 100) (\<lambda>_. (0, 0, 0)) nodes edges of
     Inl e \<Rightarrow> False
   | Inr s0 \<Rightarrow>
       (let s = snd (handle (PointerDown [(MeshObj 0, Vector3 0 0 (12/5))]
                       (\<lambda>_. \<lparr>d_life = 1/2, d_scale = 1/2, d_vx = 1/4, d_vy = 1/2, d_vz = 3/4\<rparr>))
                      (snd (handle (Orbit (Vector3 0 0 10)) s0)));
            res = onPointerMove (Vector3 0 0 10) (Vector3 (3/5) 0 (-4/5)) s
        in reachable s \<and> dragging s = Some (MeshObj 0) \<and> fst res = None \<and>
           m_position (nodeGroup (snd res) ! 0) = Vector3 6 0 (-2/5) \<and>
           l_a (edgeGroup (snd res) ! 0) = ''Material'' \<and> l_b (edgeGroup (snd res) ! 0) = ''Sun'' \<and>
           geometry (edgeGroup (snd res) ! 0) =
             setFromPoints (Vector3 6 0 (-2/5)) (Vector3 50 40 (-20)))"
proof -
  obtain s0 where b: "build (\<lambda>_. 100) (\<lambda>_. (0, 0, 0)) nodes edges = Inr s0"
    using build_total[OF edges_present] by blast
  note st = mesh_drag_state[OF b]
  note t = drag_updates_edges[OF st(1) st(2), of "Vector3 0 0 10" "Vector3 (3/5) 0 (-4/5)"]
  note c = mesh_drag_result[OF b t]
  show ?thesis unfolding b sum.case Let_def
    by (intro conjI st(1) st(2) c)
qed

subsection \<open>What the geometry of a line holds after a move\<close>

lemma fround_exponent:
  assumes "x \<noteq> 0" and "2 powr (of_int k) \<le> \<bar>x\<bar>" and "\<bar>x\<bar> < 2 powr (of_int k + 1)"
    and "- 126 \<le> k"
  shows "fround x =
     (let y = of_int (roundTiesToEven (x / 2 powr (of_int k - 23))) * 2 powr (of_int k - 23)
      in if 2 ^ 128 \<le> y then PosInfinity
         else if y \<le> - (2 ^ 128) then NegInfinity
         else Float32 y)"
proof -
  have "0 < \<bar>x\<bar>" using assms(1) by simp
  then have "\<lfloor>log 2 \<bar>x\<bar>\<rfloor> = k"
    using assms(2,3) by (simp add: floor_log_eq_powr_iff)
  then have "max \<lfloor>log 2 \<bar>x\<bar>\<rfloor> (- 126) = k" using assms(4) by simp
  then show ?thesis using assms(1) by (simp add: fround_def Let_def)
qed

lemma fround_value:
  assumes "x \<noteq> 0" and "2 powr (of_int k) \<le> \<bar>x\<bar>" and "\<bar>x\<bar> < 2 powr (of_int k + 1)"
    and "- 126 \<le> k"
    and "roundTiesToEven (x / 2 powr (of_int k - 23)) = n"
    and "y = of_int n * 2 powr (of_int k - 23)"
    and "- (2 ^ 128) < y" and "y < 2 ^ 128"
  shows "fround x = Float32 y"
  using fround_exponent[OF assms(1-4)] assms(5-8) by (simp add: Let_def)

lemma fround_minus_two_fifths: "fround (- 2 / 5) = Float32 (- 13421773 / 33554432)"
  by (rule fround_value[where k = "- 2" and n = "- 13421773"])
     (simp_all add: powr_neg_numeral roundTiesToEven_def Let_def)

lemma fround_six: "fround 6 = Float32 6"
  by (rule fround_value[where k = 2 and n = 12582912])
     (simp_all add: powr_neg_numeral roundTiesToEven_def Let_def)

lemma fround_zero: "fround 0 = Float32 0"
  by (simp add: fround_def)

text \<open>
  The repository's scene after one frame of one second, with the marker of the node
  Material grabbed by its label sprite.
\<close>

lemma animateNode_position: "m_position (animateNode dt m) = m_position m"
  by (simp add: animateNode_def Let_def split: option.splits)

lemma animate_position:
  assumes "i < length (nodeGroup s)"
  shows "m_position (nodeGroup (animate dt cam s) ! i) =
           Vector3 (vx (m_position (nodeGroup s ! i)))
                   (vy (m_position (nodeGroup s ! i))
                      + sin ((elapsedTime s + dt) * 0.3 + real i) * 0.08 * dt)
                   (vz (m_position (nodeGroup s ! i)))"
proof -
  let ?ms = "forEachNode (animateNode dt) (nodeMap s) (nodeGroup s)"
  have len: "i < length ?ms" using assms by (simp add: forEachNode_length)
  have "map m_position ?ms = map m_position (nodeGroup s)"
    by (rule map_forEachNode) (rule animateNode_position)
  then have "map m_position ?ms ! i = map m_position (nodeGroup s) ! i" by simp
  then have p: "m_position (?ms ! i) = m_position (nodeGroup s ! i)" using len assms by simp
  show ?thesis using nodeMotion_nth[OF len] p by (simp add: animate_def Let_def)
qed

lemma label_drag_stale:
  fixes s0 :: session
  defines "s \<equiv> snd (handle (PointerDown [(SpriteObj 0, Vector3 0 4 0)]
                       (\<lambda>_. \<lparr>d_life = 1/2, d_scale = 1/2, d_vx = 1/4, d_vy = 1/2, d_vz = 3/4\<rparr>))
                      (snd (handle (Frame 1 (Vector3 0 30 80)) s0)))"
  defines "res \<equiv> onPointerMove (Vector3 0 30 80) (Vector3 0 (-3/5) (-4/5)) s"
  assumes b: "build measureText jit nodes edges = Inr s0"
  shows "reachable s" and "dragging s = Some (SpriteObj 0)" and "fst res = None"
    and "edgeGroup (snd res) = edgeGroup s0"
    and "l_a (edgeGroup (snd res) ! 0) = ''Material''"
    and "fst (geometry (edgeGroup (snd res) ! 0)) = (Float32 0, Float32 0, Float32 0)"
    and "m_position (nodeGroup (snd res) ! 0) = Vector3 0 (sin (3/10) * (2/25)) 0"
    and "0 < sin (3/10) * (2/25 :: real)"
proof -
  let ?R = "\<lambda>_::nat. \<lparr>d_life = 1/2, d_scale = 1/2, d_vx = 1/4, d_vy = 1/2, d_vz = 3/4\<rparr>"
  let ?ev = "PointerDown [(SpriteObj 0, Vector3 0 4 0)] ?R"
  note sc = repo_scene[OF b]
  define s1 where "s1 = snd (handle (Frame 1 (Vector3 0 30 80)) s0)"
  have s1: "s1 = animate 1 (Vector3 0 30 80) s0" by (simp add: s1_def)
  have r0: "reachable s0" by (rule reachable.built[OF b])
  have r1: "reachable s1" unfolding s1_def by (rule reachable.step[OF r0]) simp
  have nm1: "nodeMap s1 = nodeMap s0" and eg1: "edgeGroup s1 = edgeGroup s0"
    by (simp_all add: s1 animate_def Let_def)
  have len1: "length (nodeGroup s1) = 12"
    using sc(1) by (simp add: s1 animate_def Let_def nodeMotion_length forEachNode_length)
  have i0: "0 < length (nodeGroup s0)" using sc(1) by simp
  have p1: "m_position (nodeGroup s1 ! 0) = Vector3 0 (sin (3/10) * (2/25)) 0"
    unfolding s1 using animate_position[OF i0, of 1 "Vector3 0 30 80"] sc(6) build_clock[OF b]
    by simp
  have ok: "event_ok s1 ?ev" using sc(3) nm1 by (simp add: draws_ok_def list_all_iff)
  have ss: "s = snd (handle ?ev s1)" by (simp add: s_def s1_def)
  show "reachable s" unfolding ss by (rule reachable.step[OF r1 ok])
  have s: "s = s1\<lparr>dragging := Some (SpriteObj 0),
                   dragOffset := sub (Vector3 0 4 0) (spritePos (nodeGroup s1 ! 0))\<rparr>"
    unfolding ss by (simp add: onPointerDown_def Let_def onNodeActivate_None)
  show d: "dragging s = Some (SpriteObj 0)" unfolding s by simp
  have eg: "edgeGroup s = edgeGroup s0" and lens: "length (nodeGroup s) = 12"
    and p: "m_position (nodeGroup s ! 0) = Vector3 0 (sin (3/10) * (2/25)) 0"
    unfolding s using eg1 len1 p1 by simp_all
  have res: "res = (None,
      (s\<lparr>nodeGroup := (nodeGroup s)[0 := (nodeGroup s ! 0)\<lparr>spritePos :=
          sub (add (multiplyScalar (Vector3 0 (-3/5) (-4/5))
                      (distanceTo (spritePos (nodeGroup s ! 0)) (cameraPos s)))
                   (Vector3 0 30 80)) (dragOffset s)\<rparr>]\<rparr>)\<lparr>edgeGroup := edgeGroup s\<rparr>)"
    unfolding res_def onPointerMove_Sprite[OF d] Let_def updateEdges_no_id by simp
  show "fst res = None" unfolding res by simp
  show e: "edgeGroup (snd res) = edgeGroup s0" unfolding res using eg by simp
  show "l_a (edgeGroup (snd res) ! 0) = ''Material''" unfolding e by (rule sc(9))
  show "fst (geometry (edgeGroup (snd res) ! 0)) = (Float32 0, Float32 0, Float32 0)"
    unfolding e sc(11) by (simp add: setFromPoints_def fround_zero)
  show "m_position (nodeGroup (snd res) ! 0) = Vector3 0 (sin (3/10) * (2/25)) 0"
    unfolding res using p lens by simp
  have "(3/10 :: real) < pi" using pi_ge_two by simp
  then have "0 < sin (3/10 :: real)" by (intro sin_gt_zero) simp_all
  then show "0 < sin (3/10) * (2/25 :: real)" by simp
qed

text \<open>
  Claim C5 as the specification words it does not hold. In the repository's scene the mesh
  of the node Material is dragged to (6, 0, -0.4): the line from Material to Sun then holds
  -13421773 / 33554432 as the third coordinate of its first end, the 32-bit float next to
  -0.4, not the position. And when the marker of that node is grabbed by its label, the move
  rewrites no line, and the same line still holds the point (0, 0, 0) where the node was
  before the frame moved it.
\<close>

theorem drag_updates_edges_counterexample:
  "(case build (\<lambda>_. 100) (\<lambda>_. (0, 0, 0)) nodes edges of
     Inl e \<Rightarrow> False
   | Inr s0 \<Rightarrow>
       (let s = snd (handle (PointerDown [(MeshObj 0, Vector3 0 0 (12/5))]
                       (\<lambda>_. \<lparr>d_life = 1/2, d_scale = 1/2, d_vx = 1/4, d_vy = 1/2, d_vz = 3/4\<rparr>))
                      (snd (handle (Orbit (Vector3 0 0 10)) s0)));
            res = onPointerMove (Vector3 0 0 10) (Vector3 (3/5) 0 (-4/5)) s
        in reachable s \<and> dragging s = Some (MeshObj 0) \<and>
           m_position (nodeGroup (snd res) ! 0) = Vector3 6 0 (-2/5) \<and>
           l_a (edgeGroup (snd res) ! 0) = ''Material'' \<and>
           fst (geometry (edgeGroup (snd res) ! 0)) =
             (Float32 6, Float32 0, Float32 (- 13421773 / 33554432)) \<and>
           fst (geometry (edgeGroup (snd res) ! 0)) \<noteq> (Float32 6, Float32 0, Float32 (- 2 / 5)))) \<and>
   (case build (\<lambda>_. 100) (\<lambda>_. (0, 0, 0)) nodes edges of
     Inl e \<Rightarrow> False
   | Inr s0 \<Rightarrow>
       (let s = snd (handle (PointerDown [(SpriteObj 0, Vector3 0 4 0)]
                       (\<lambda>_. \<lparr>d_life = 1/2, d_scale = 1/2, d_vx = 1/4, d_vy = 1/2, d_vz = 3/4\<rparr>))
                      (snd (handle (Frame 1 (Vector3 0 30 80)) s0)));
            res = onPointerMove (Vector3 0 30 80) (Vector3 0 (-3/5) (-4/5)) s
        in reachable s \<and> dragging s = Some (SpriteObj 0) \<and> fst res = None \<and>
           edgeGroup (snd res) = edgeGroup s0 \<and>
           l_a (edgeGroup (snd res) ! 0) = ''Material'' \<and>
           fst (geometry (edgeGroup (snd res) ! 0)) = (Float32 0, Float32 0, Float32 0) \<and>
           m_position (nodeGroup (snd res) ! 0) = Vector3 0 (sin (3/10) * (2/25)) 0 \<and>
           0 < sin (3/10) * (2/25 :: real)))"
proof -
  obtain s0 where b: "build (\<lambda>_. 100) (\<lambda>_. (0, 0, 0)) nodes edges = Inr s0"
    using build_total[OF edges_present] by blast
  note st = mesh_drag_state[OF b]
  have w: "wf (snd (handle (PointerDown [(MeshObj 0, Vector3 0 0 (12/5))]
                       (\<lambda>_. \<lparr>d_life = 1/2, d_scale = 1/2, d_vx = 1/4, d_vy = 1/2, d_vz = 3/4\<rparr>))
                      (snd (handle (Orbit (Vector3 0 0 10)) s0))))"
    using st(1) by (rule reachable_wf)
  note c = mesh_drag_result[OF b drag_mesh_lines[OF w st(2), of "Vector3 0 0 10" "Vector3 (3/5) 0 (-4/5)"]]
  have g: "fst (geometry (edgeGroup (snd (onPointerMove (Vector3 0 0 10) (Vector3 (3/5) 0 (-4/5))
             (snd (handle (PointerDown [(MeshObj 0, Vector3 0 0 (12/5))]
                       (\<lambda>_. \<lparr>d_life = 1/2, d_scale = 1/2, d_vx = 1/4, d_vy = 1/2, d_vz = 3/4\<rparr>))
                      (snd (handle (Orbit (Vector3 0 0 10)) s0)))))) ! 0)) =
             (Float32 6, Float32 0, Float32 (- 13421773 / 33554432))"
    unfolding c(5) using fround_six fround_zero fround_minus_two_fifths
    by (simp add: setFromPoints_def)
  have ne: "(Float32 6, Float32 0, Float32 (- 13421773 / 33554432)) \<noteq>
            (Float32 6, Float32 0, Float32 (- 2 / 5 :: real))"
    by simp
  note lb = label_drag_stale[OF b]
  show ?thesis unfolding b sum.case Let_def
    by (intro conjI st(1) st(2) c(2) c(3) g lb, unfold g, rule ne)
qed

section \<open>Edge records with missing nodes\<close>



lemma build_edge_count:
  assumes "\<forall>(a, b) \<in> set es. a \<in> n_id ` set ns \<and> b \<in> n_id ` set ns"
  shows "\<exists>s. build measureText jit ns es = Inr s \<and> length (nodeGroup s) = length ns \<and>
             length (edgeGroup s) = length es \<and>
             length (edgeGroup s) =
               length (filter (\<lambda>(a, b). a \<in> n_id ` set ns \<and> b \<in> n_id ` set ns) es)"
proof -
  obtain s where b: "build measureText jit ns es = Inr s" using build_total[OF assms] by blast
  note sh = build_shape[OF b]
  have "length (edgeGroup s) = length es"
    using arg_cong[OF sh[THEN conjunct2, THEN conjunct2, THEN conjunct2, THEN conjunct2, THEN conjunct1], of length]
    by simp
  moreover have "filter (\<lambda>(a, b). a \<in> n_id ` set ns \<and> b \<in> n_id ` set ns) es = es"
    using assms by (auto simp: filter_id_conv)
  moreover have "length (nodeGroup s) = length ns"
    using arg_cong[OF sh[THEN conjunct1], of length] by simp
  ultimately show ?thesis using b by simp
qed




section \<open>The drag state\<close>

text \<open>
  Claim C8. The drag state \<^verbatim>\<open>dragging\<close> is one optional object: in every reachable session it
  is empty or it is the mesh or the label sprite of one node marker that \<^verbatim>\<open>nodeMap\<close> holds.
  After \<^verbatim>\<open>onPointerUp\<close> it is empty whatever the session was, and after \<^verbatim>\<open>onPointerDown\<close>
  with no intersection it is empty too.
\<close>

theorem drag_state:
  assumes "reachable s"
  shows "(dragging s = None \<or>
          (\<exists>i. i \<in> snd ` set (nodeMap s) \<and> i < length (nodeGroup s) \<and>
               (dragging s = Some (MeshObj i) \<or> dragging s = Some (SpriteObj i)))) \<and>
         dragging (onPointerUp s') = None \<and>
         dragging (snd (handle PointerUp s')) = None \<and>
         dragging (snd (onPointerDown [] rnd s')) = None \<and>
         dragging (snd (handle (PointerDown [] rnd) s')) = None"
proof -
  have w: "wf s" using assms by (rule reachable_wf)
  have nw: "nodes_wf (nodeGroup s) (nodeMap s)" using w by (simp add: wf_def)
  have first: "dragging s = None \<or>
          (\<exists>i. i \<in> snd ` set (nodeMap s) \<and> i < length (nodeGroup s) \<and>
               (dragging s = Some (MeshObj i) \<or> dragging s = Some (SpriteObj i)))"
  proof (cases "dragging s")
    case None
    then show ?thesis by simp
  next
    case (Some ob)
    then have e: "objIndex ob \<in> snd ` set (nodeMap s)" using w by (simp add: wf_def)
    have l: "objIndex ob < length (nodeGroup s)" using entry_in_range[OF nw e] .
    have "dragging s = Some (MeshObj (objIndex ob)) \<or> dragging s = Some (SpriteObj (objIndex ob))"
      using Some by (cases ob) simp_all
    then have "\<exists>i. i \<in> snd ` set (nodeMap s) \<and> i < length (nodeGroup s) \<and>
               (dragging s = Some (MeshObj i) \<or> dragging s = Some (SpriteObj i))"
      using e l by (intro exI[of _ "objIndex ob"] conjI)
    then show ?thesis by (rule disjI2)
  qed
  have rest: "dragging (onPointerUp s') = None \<and>
         dragging (snd (handle PointerUp s')) = None \<and>
         dragging (snd (onPointerDown [] rnd s')) = None \<and>
         dragging (snd (handle (PointerDown [] rnd) s')) = None"
    by (simp add: onPointerUp_def onPointerDown_def)
  show ?thesis using first rest by (rule conjI)
qed

theorem drag_state_witness:
  "case build (\<lambda>_. 100) (\<lambda>_. (0, 0, 0)) nodes edges of
     Inl e \<Rightarrow> False
   | Inr s0 \<Rightarrow>
       (let s = snd (handle (PointerDown [(MeshObj 0, Vector3 0 0 (12/5))]
                       (\<lambda>_. \<lparr>d_life = 1/2, d_scale = 1/2, d_vx = 1/4, d_vy = 1/2, d_vz = 3/4\<rparr>)) s0)
        in reachable s \<and> dragging s = Some (MeshObj 0) \<and>
           0 \<in> snd ` set (nodeMap s) \<and> 0 < length (nodeGroup s) \<and>
           dragging (snd (handle PointerUp s)) = None \<and>
           dragging (snd (handle (PointerDown []
                       (\<lambda>_. \<lparr>d_life = 1/2, d_scale = 1/2, d_vx = 1/4, d_vy = 1/2, d_vz = 3/4\<rparr>)) s)) = None)"
proof -
  let ?R = "\<lambda>_::nat. \<lparr>d_life = 1/2, d_scale = 1/2, d_vx = 1/4, d_vy = 1/2, d_vz = 3/4\<rparr>"
  let ?ev = "PointerDown [(MeshObj 0, Vector3 0 0 (12/5))] ?R"
  obtain s0 where b: "build (\<lambda>_. 100) (\<lambda>_. (0, 0, 0)) nodes edges = Inr s0"
    using build_total[OF edges_present] by blast
  define s where "s = snd (handle ?ev s0)"
  have ids: "map m_id (nodeGroup s0) = map n_id nodes" using build_shape[OF b] by (rule conjunct1)
  have len: "length (nodeGroup s0) = 12" using arg_cong[OF ids, of length] by (simp add: nodes_ids)
  have id0: "m_id (nodeGroup s0 ! 0) = ''Material''"
    using arg_cong[OF ids, of "\<lambda>xs. xs ! 0"] len by (simp add: nodes_ids)
  have nl: "0 < length nodes" using arg_cong[OF nodes_ids, of length] by simp
  have key: "n_id (nodes ! 0) = ''Material''"
    using arg_cong[OF nodes_ids, of "\<lambda>xs. xs ! 0"] nl by simp
  have ent: "0 \<in> snd ` set (nodeMap s0)"
    using build_entry[OF b nodes_distinct nl] by (rule conjunct1)
  have look0: "map_of (nodeMap s0) ''Material'' = Some 0"
    using build_entry[OF b nodes_distinct nl] key by simp
  have r0: "reachable s0" by (rule reachable.built[OF b])
  have ok: "event_ok s0 ?ev" using ent by (simp add: draws_ok_def list_all_iff)
  have r: "reachable s" unfolding s_def by (rule reachable.step[OF r0 ok])
  have s: "s = snd (onNodeActivate (Some 0) ?R
            (s0\<lparr>dragging := Some (MeshObj 0),
                 dragOffset := sub (Vector3 0 0 (12/5)) (m_position (nodeGroup s0 ! 0))\<rparr>))"
    unfolding s_def using look0 id0 by (simp add: onPointerDown_def Let_def)
  have drag: "dragging s = Some (MeshObj 0)" unfolding s by (simp add: onNodeActivate_def Let_def)
  note t = drag_state[OF r, of s ?R]
  from t[THEN conjunct1] drag obtain i where i: "i \<in> snd ` set (nodeMap s)" "i < length (nodeGroup s)"
      "Some (MeshObj 0) = Some (MeshObj i) \<or> Some (MeshObj 0) = Some (SpriteObj i)"
    by auto
  then have "i = 0" by simp
  then have c1: "0 \<in> snd ` set (nodeMap s)" "0 < length (nodeGroup s)" using i by simp_all
  have c2: "dragging (snd (handle PointerUp s)) = None"
    using t[THEN conjunct2, THEN conjunct2, THEN conjunct1] .
  have c3: "dragging (snd (handle (PointerDown [] ?R) s)) = None"
    using t[THEN conjunct2, THEN conjunct2, THEN conjunct2, THEN conjunct2] .
  show ?thesis unfolding b sum.case Let_def using r drag c1 c2 c3 unfolding s_def by blast
qed

end
